theory Spec2Isabelle
  imports Complex_Main "HOL-Library.Sublist"
begin

section \<open>Python values, errors and float64 arithmetic\<close>

text \<open>
  The cells of a pandas DataFrame and the fields of the tuples handed to SQLite are
  dynamically typed Python objects. The scalars that occur in this program are
  \<open>None\<close>, pandas' \<open>pd.NA\<close>, floats (among them not-a-number), integers and strings.
  Strings are sequences of Latin-1 code points, which covers the Swedish column headers.
\<close>

datatype 'f pyval = PyNone | PdNA | PyFloat 'f | PyInt int | PyStr string

datatype error =
  TypeError | ValueError | OverflowError | IndexError | KeyError | IntegrityError | OperationalError

text \<open>
  float64 arithmetic is not interpreted: the operations of numpy, pandas and Python on
  floats are the fields of a record, and every definition below takes that record as its
  first argument. \<open>to_numeric_str\<close> is the parser behind \<open>pd.to_numeric\<close> on one string
  (\<open>None\<close> when the text is no number; an integer when the text is one of the range
  \<open>-2^63 .. 2^64-1\<close>, else the float), \<open>exact_int64\<close> the value of a float that is a whole
  number inside the int64 range (\<open>None\<close> otherwise, so for an infinity), \<open>int_of_float\<close>,
  \<open>int_of_str\<close> and \<open>float_of_str\<close> are Python's \<open>int(x)\<close> and \<open>float(s)\<close> with the
  exception they may raise. \<open>inf_cast_error\<close> is the exception of the cast to Int64 on a
  float column that holds an infinity and cannot be cast: OverflowError where Python's
  \<open>int()\<close> meets the infinity, TypeError where the comparison after the cast fails first.
\<close>

record 'f float_ops =
  nan :: 'f
  isnan :: "'f \<Rightarrow> bool"
  float_of_int :: "int \<Rightarrow> 'f"
  fdiv :: "'f \<Rightarrow> 'f \<Rightarrow> 'f"
  fmul :: "'f \<Rightarrow> 'f \<Rightarrow> 'f"
  round2 :: "'f \<Rightarrow> 'f"
  eq_zero :: "'f \<Rightarrow> bool"
  ge_zero :: "'f \<Rightarrow> bool"
  exact_int64 :: "'f \<Rightarrow> int option"
  isinf :: "'f \<Rightarrow> bool"
  inf_cast_error :: "'f list \<Rightarrow> error"
  str_of_float :: "'f \<Rightarrow> string"
  to_numeric_str :: "string \<Rightarrow> 'f pyval option"
  int_of_float :: "'f \<Rightarrow> error + int"
  int_of_str :: "string \<Rightarrow> error + int"
  float_of_str :: "string \<Rightarrow> error + 'f"

text \<open>
  The facts of IEEE 754 arithmetic that the program relies on: the not-a-number marker is
  one, rounding keeps it and produces none, an int64 converts to a number, and that
  number compares equal to zero exactly when the integer is zero.
\<close>

definition ieee :: "'f float_ops \<Rightarrow> bool" where
  "ieee F \<longleftrightarrow>
     isnan F (nan F) \<and>
     (\<forall>x. isnan F (round2 F x) = isnan F x) \<and>
     (\<forall>i. \<not> isnan F (float_of_int F i)) \<and>
     (\<forall>i. eq_zero F (float_of_int F i) = (i = 0))"

definition in_int64 :: "int \<Rightarrow> bool" where
  "in_int64 i \<longleftrightarrow> - (2 ^ 63) \<le> i \<and> i < 2 ^ 63"

definition in_uint64 :: "int \<Rightarrow> bool" where
  "in_uint64 i \<longleftrightarrow> 0 \<le> i \<and> i < 2 ^ 64"

text \<open>A Python integer converts to a float unless it rounds beyond the largest one.\<close>

definition fits_float :: "int \<Rightarrow> bool" where
  "fits_float i \<longleftrightarrow> (if in_int64 i then True else \<bar>i\<bar> < 2 ^ 1024 - 2 ^ 970)"

subsection \<open>Decimal text of an integer\<close>

definition digit_char :: "nat \<Rightarrow> char" where
  "digit_char d = ''0123456789'' ! d"

fun digits :: "nat \<Rightarrow> string" where
  "digits n = (if n < 10 then [digit_char n] else digits (n div 10) @ [digit_char (n mod 10)])"

declare digits.simps [simp del]

definition str_of_int :: "int \<Rightarrow> string" where
  "str_of_int i = (if i < 0 then CHR ''-'' # digits (nat (- i)) else digits (nat i))"

subsection \<open>Whitespace\<close>

text \<open>\<open>str.isspace\<close> on the code points below 256, and \<open>str.strip()\<close>.\<close>

definition isspace :: "char \<Rightarrow> bool" where
  "isspace c \<longleftrightarrow>
     c \<in> set [CHR 0x09, CHR 0x0A, CHR 0x0B, CHR 0x0C, CHR 0x0D, CHR 0x1C, CHR 0x1D, CHR 0x1E, CHR 0x1F,
              CHR 0x20, CHR 0x85, CHR 0xA0]"

definition strip :: "string \<Rightarrow> string" where
  "strip s = rev (dropWhile isspace (rev (dropWhile isspace s)))"

section \<open>The raw table\<close>

text \<open>
  A DataFrame as \<open>extract_excel\<close> returns it: the column labels, and the rows in order,
  each with its index label and its cell under every column label.
\<close>

record 'f dataframe =
  columns :: "string list"
  rows :: "(int \<times> (string \<Rightarrow> 'f pyval)) list"

definition COLUMN_MAP :: "(string \<times> string) list" where
  "COLUMN_MAP =
     [(''Url'', ''url''),
      (''Registreringsnummer'', ''regnr''),
      (''Modell'' @ [CHR 0xE5] @ ''r'', ''model_year''),
      (''Pris (kr)'', ''price_sek''),
      (''M'' @ [CHR 0xE4] @ ''tarst'' @ [CHR 0xE4] @ ''llning (km)'', ''odometer_km''),
      (''Br'' @ [CHR 0xE4] @ ''nsle'', ''fuel''),
      (''Biltyp'', ''body_type''),
      (''H'' @ [CHR 0xE4] @ ''stkrafter'', ''horsepower'')]"

text \<open>\<open>_safe_get\<close>: the column when the table has it, else one \<open>pd.NA\<close> per row.\<close>

definition safe_get :: "'f dataframe \<Rightarrow> string \<Rightarrow> 'f pyval list" where
  "safe_get df col =
     (if col \<in> set (columns df) then map (\<lambda>(i, r). r col) (rows df)
      else replicate (length (rows df)) PdNA)"

section \<open>Transform\<close>

subsection \<open>Text columns\<close>

text \<open>
  \<open>astype("string")\<close> turns a missing cell into \<open>pd.NA\<close> and every other cell into its
  text; \<open>.str.strip()\<close> and \<open>.replace({"": pd.NA})\<close> act on the cells that are present.
\<close>

definition astype_string :: "'f float_ops \<Rightarrow> 'f pyval \<Rightarrow> string option" where
  "astype_string F v =
     (case v of
        PyNone \<Rightarrow> None
      | PdNA \<Rightarrow> None
      | PyFloat x \<Rightarrow> if isnan F x then None else Some (str_of_float F x)
      | PyInt i \<Rightarrow> Some (str_of_int i)
      | PyStr s \<Rightarrow> Some s)"

definition replace_empty :: "string option \<Rightarrow> string option" where
  "replace_empty v = (if v = Some [] then None else v)"

definition clean_text :: "'f float_ops \<Rightarrow> 'f pyval \<Rightarrow> string option" where
  "clean_text F v = replace_empty (map_option strip (astype_string F v))"

subsection \<open>Numeric columns\<close>

text \<open>
  \<open>pd.to_numeric(col, errors="coerce")\<close> on a column whose cells are all integers (or
  text of one) yields an int64 column when they all fit, a uint64 column when none is
  negative and all are below \<open>2^64\<close>, and a float64 column once a cell is below \<open>-2^63\<close>
  or above \<open>2^64-1\<close> or a negative cell meets one above \<open>2^63-1\<close>. Any other column becomes
  float64: the integers are converted to floats and whatever is missing or no number is
  not-a-number. The float of every integer cell is computed on the way, which raises
  OverflowError for an integer too large for a float.
\<close>

datatype 'f numeric_col = Int64Col "int list" | UInt64Col "int list" | Float64Col "'f list"

definition to_numeric_cell :: "'f float_ops \<Rightarrow> 'f pyval \<Rightarrow> 'f pyval" where
  "to_numeric_cell F v =
     (case v of
        PyNone \<Rightarrow> PyFloat (nan F)
      | PdNA \<Rightarrow> PyFloat (nan F)
      | PyFloat x \<Rightarrow> PyFloat x
      | PyInt i \<Rightarrow> PyInt i
      | PyStr s \<Rightarrow>
          (case to_numeric_str F s of
             Some (PyInt i) \<Rightarrow> PyInt i
           | Some (PyFloat x) \<Rightarrow> PyFloat x
           | _ \<Rightarrow> PyFloat (nan F)))"

definition is_int :: "'f pyval \<Rightarrow> bool" where
  "is_int v = (case v of PyInt _ \<Rightarrow> True | _ \<Rightarrow> False)"

definition the_int :: "'f pyval \<Rightarrow> int" where
  "the_int v = (case v of PyInt i \<Rightarrow> i | _ \<Rightarrow> 0)"

definition as_float :: "'f float_ops \<Rightarrow> 'f pyval \<Rightarrow> 'f" where
  "as_float F v = (case v of PyInt i \<Rightarrow> float_of_int F i | PyFloat x \<Rightarrow> x | _ \<Rightarrow> nan F)"

definition to_numeric :: "'f float_ops \<Rightarrow> 'f pyval list \<Rightarrow> error + 'f numeric_col" where
  "to_numeric F col =
     (let ns = map (to_numeric_cell F) col
      in if \<not> list_all fits_float (map the_int (filter is_int col)) then Inl OverflowError
         else if list_all is_int ns then
           (let is = map the_int ns
            in if list_all in_int64 is then Inr (Int64Col is)
               else if list_all in_uint64 is then Inr (UInt64Col is)
               else Inr (Float64Col (map (float_of_int F) is)))
         else Inr (Float64Col (map (as_float F) ns)))"

text \<open>
  \<open>astype("Int64")\<close>: an int64 column is kept; a uint64 column with a value above
  \<open>2^63-1\<close> raises TypeError; in a float64 column not-a-number becomes \<open>pd.NA\<close>, and a
  float that is no whole number of the int64 range makes the cast of the whole column
  raise: TypeError ("cannot safely cast non-equivalent float64 to int64") when every
  value is finite, the library's choice of OverflowError or TypeError when an infinity
  is among them.
\<close>

definition astype_Int64 :: "'f float_ops \<Rightarrow> 'f numeric_col \<Rightarrow> error + int option list" where
  "astype_Int64 F c =
     (case c of
        Int64Col is \<Rightarrow> Inr (map Some is)
      | UInt64Col is \<Rightarrow> if list_all in_int64 is then Inr (map Some is) else Inl TypeError
      | Float64Col xs \<Rightarrow>
          if list_all (\<lambda>x. isnan F x \<or> exact_int64 F x \<noteq> None) xs
          then Inr (map (\<lambda>x. if isnan F x then None else exact_int64 F x) xs)
          else if list_ex (isinf F) xs then Inl (inf_cast_error F xs)
          else Inl TypeError)"

definition bind :: "error + 'a \<Rightarrow> ('a \<Rightarrow> error + 'b) \<Rightarrow> error + 'b" where
  "bind m f = (case m of Inl e \<Rightarrow> Inl e | Inr x \<Rightarrow> f x)"

definition numeric_column :: "'f float_ops \<Rightarrow> 'f pyval list \<Rightarrow> error + int option list" where
  "numeric_column F col = bind (to_numeric F col) (astype_Int64 F)"

subsection \<open>\<open>_normalize_columns\<close>\<close>

record norm =
  url :: "string option"
  regnr :: "string option"
  model_year :: "int option"
  price_sek :: "int option"
  odometer_km :: "int option"
  fuel :: "string option"
  body_type :: "string option"
  horsepower :: "int option"

text \<open>The first loop of \<open>_normalize_columns\<close>: every target column, under its new name.\<close>

definition renamed :: "'f dataframe \<Rightarrow> (string \<times> 'f pyval list) list" where
  "renamed df = map (\<lambda>(src, dest). (dest, safe_get df src)) COLUMN_MAP"

definition getcol :: "(string \<times> 'a) list \<Rightarrow> string \<Rightarrow> error + 'a" where
  "getcol out name = (case map_of out name of None \<Rightarrow> Inl KeyError | Some c \<Rightarrow> Inr c)"

definition text_column :: "'f float_ops \<Rightarrow> (string \<times> 'f pyval list) list \<Rightarrow> string \<Rightarrow> error + string option list" where
  "text_column F out name =
     (case getcol out name of Inl e \<Rightarrow> Inl e | Inr c \<Rightarrow> Inr (map (clean_text F) c))"

definition int_column :: "'f float_ops \<Rightarrow> (string \<times> 'f pyval list) list \<Rightarrow> string \<Rightarrow> error + int option list" where
  "int_column F out name =
     (case getcol out name of Inl e \<Rightarrow> Inl e | Inr c \<Rightarrow> numeric_column F c)"

definition normalize_columns :: "'f float_ops \<Rightarrow> 'f dataframe \<Rightarrow> error + (int \<times> norm) list" where
  "normalize_columns F df =
     (let out = renamed df in
      bind (text_column F out ''url'') (\<lambda>c_url.
      bind (text_column F out ''regnr'') (\<lambda>c_regnr.
      bind (text_column F out ''fuel'') (\<lambda>c_fuel.
      bind (text_column F out ''body_type'') (\<lambda>c_body.
      bind (int_column F out ''model_year'') (\<lambda>c_year.
      bind (int_column F out ''price_sek'') (\<lambda>c_price.
      bind (int_column F out ''odometer_km'') (\<lambda>c_odo.
      bind (int_column F out ''horsepower'') (\<lambda>c_hp.
      Inr (map (\<lambda>k. (fst (rows df ! k),
                     \<lparr>url = c_url ! k, regnr = c_regnr ! k, model_year = c_year ! k,
                      price_sek = c_price ! k, odometer_km = c_odo ! k, fuel = c_fuel ! k,
                      body_type = c_body ! k, horsepower = c_hp ! k\<rparr>))
               [0 ..< length (rows df)]))))))))))"

subsection \<open>\<open>transform_cars\<close>\<close>

record 'f car = norm +
  price_per_1000km :: 'f

text \<open>\<open>astype("float")\<close> of an Int64 column: \<open>pd.NA\<close> becomes not-a-number.\<close>

definition astype_float :: "'f float_ops \<Rightarrow> int option \<Rightarrow> 'f" where
  "astype_float F v = (case v of None \<Rightarrow> nan F | Some i \<Rightarrow> float_of_int F i)"

text \<open>
  The derived column, row by row: the quotient is computed for every row (numpy's
  warnings are silenced, nothing raises), the rows of the mask are set to not-a-number,
  and the column is rounded to two decimals.
\<close>

definition p_per_1000 :: "'f float_ops \<Rightarrow> norm \<Rightarrow> 'f" where
  "p_per_1000 F r =
     (let price = astype_float F (price_sek r);
          odo = astype_float F (odometer_km r);
          p = fmul F (fdiv F price odo) (float_of_int F 1000);
          invalid = (isnan F price \<or> isnan F odo \<or> eq_zero F odo)
      in round2 F (if invalid then nan F else p))"

definition with_price :: "'f float_ops \<Rightarrow> norm \<Rightarrow> 'f car" where
  "with_price F r = norm.extend r (car.fields (p_per_1000 F r))"

text \<open>\<open>drop_duplicates(subset=["url"], keep="last")\<close>: a row goes when a later row has its url.\<close>

fun drop_duplicates_last :: "(int \<times> 'f car) list \<Rightarrow> (int \<times> 'f car) list" where
  "drop_duplicates_last [] = []"
| "drop_duplicates_last (r # rs) =
     (if url (snd r) \<in> set (map (\<lambda>q. url (snd q)) rs) then drop_duplicates_last rs
      else r # drop_duplicates_last rs)"

definition reset_index :: "(int \<times> 'a) list \<Rightarrow> (int \<times> 'a) list" where
  "reset_index rs = zip (map int [0 ..< length rs]) (map snd rs)"

text \<open>
  The stages of \<open>transform_cars\<close> after normalisation: the derived column, the rows whose
  url is present, the duplicates dropped, the index renumbered. Logging has no effect on
  the result and is left out.
\<close>

definition add_price :: "'f float_ops \<Rightarrow> (int \<times> norm) list \<Rightarrow> (int \<times> 'f car) list" where
  "add_price F out = map (\<lambda>(i, r). (i, with_price F r)) out"

definition notna_url :: "(int \<times> 'f car) list \<Rightarrow> (int \<times> 'f car) list" where
  "notna_url out = filter (\<lambda>(i, c). url c \<noteq> None) out"

definition transform_cars :: "'f float_ops \<Rightarrow> 'f dataframe \<Rightarrow> error + (int \<times> 'f car) list" where
  "transform_cars F df =
     (case normalize_columns F df of
        Inl e \<Rightarrow> Inl e
      | Inr out \<Rightarrow> Inr (reset_index (drop_duplicates_last (notna_url (add_price F out)))))"

section \<open>Load\<close>

subsection \<open>The clock\<close>

text \<open>
  \<open>datetime.now(timezone.utc).isoformat()\<close> reads the system clock: the clock is the
  sequence of the texts it will return and the number of readings taken so far.
\<close>

record clock =
  readings :: "nat \<Rightarrow> string"
  reads :: nat

definition utcnow_isoformat :: "clock \<Rightarrow> string \<times> clock" where
  "utcnow_isoformat clk = (readings clk (reads clk), clk\<lparr>reads := Suc (reads clk)\<rparr>)"

subsection \<open>\<open>_convert_row_for_db\<close>\<close>

text \<open>\<open>pd.isna\<close> on a scalar, and the builtins \<open>str\<close>, \<open>int\<close> and \<open>float\<close> used as casts.\<close>

definition pd_isna :: "'f float_ops \<Rightarrow> 'f pyval \<Rightarrow> bool" where
  "pd_isna F v = (case v of PyNone \<Rightarrow> True | PdNA \<Rightarrow> True | PyFloat x \<Rightarrow> isnan F x | _ \<Rightarrow> False)"

definition isinstance_float :: "'f pyval \<Rightarrow> bool" where
  "isinstance_float v = (case v of PyFloat _ \<Rightarrow> True | _ \<Rightarrow> False)"

definition np_isnan :: "'f float_ops \<Rightarrow> 'f pyval \<Rightarrow> bool" where
  "np_isnan F v = (case v of PyFloat x \<Rightarrow> isnan F x | _ \<Rightarrow> False)"

definition py_str :: "'f float_ops \<Rightarrow> 'f pyval \<Rightarrow> error + string" where
  "py_str F v =
     (case v of
        PyNone \<Rightarrow> Inr ''None''
      | PdNA \<Rightarrow> Inr ''<NA>''
      | PyFloat x \<Rightarrow> Inr (str_of_float F x)
      | PyInt i \<Rightarrow> Inr (str_of_int i)
      | PyStr s \<Rightarrow> Inr s)"

definition py_int :: "'f float_ops \<Rightarrow> 'f pyval \<Rightarrow> error + int" where
  "py_int F v =
     (case v of
        PyNone \<Rightarrow> Inl TypeError
      | PdNA \<Rightarrow> Inl TypeError
      | PyFloat x \<Rightarrow> int_of_float F x
      | PyInt i \<Rightarrow> Inr i
      | PyStr s \<Rightarrow> int_of_str F s)"

definition py_float :: "'f float_ops \<Rightarrow> 'f pyval \<Rightarrow> error + 'f" where
  "py_float F v =
     (case v of
        PyNone \<Rightarrow> Inl TypeError
      | PdNA \<Rightarrow> Inl TypeError
      | PyFloat x \<Rightarrow> Inr x
      | PyInt i \<Rightarrow> if \<bar>i\<bar> < 2 ^ 1024 - 2 ^ 970 then Inr (float_of_int F i) else Inl OverflowError
      | PyStr s \<Rightarrow> float_of_str F s)"

text \<open>The inner helper \<open>_none(v, cast)\<close>; every call of the source passes a cast.\<close>

definition none_or :: "'f float_ops \<Rightarrow> ('f pyval \<Rightarrow> error + 'a) \<Rightarrow> 'f pyval \<Rightarrow> error + 'a option" where
  "none_or F cast v =
     (if v = PyNone \<or> (isinstance_float v \<and> np_isnan F v) \<or> pd_isna F v then Inr None
      else bind (cast v) (\<lambda>x. Inr (Some x)))"

text \<open>The tuple bound to the ten parameters of the UPSERT statement.\<close>

record 'f db_row =
  db_url :: "string option"
  db_regnr :: "string option"
  db_model_year :: "int option"
  db_price_sek :: "int option"
  db_odometer_km :: "int option"
  db_fuel :: "string option"
  db_body_type :: "string option"
  db_horsepower :: "int option"
  db_price_per_1000km :: "'f option"
  db_load_ts :: string

text \<open>\<open>r[k]\<close> on a tuple raises IndexError past its end.\<close>

definition item :: "'a list \<Rightarrow> nat \<Rightarrow> error + 'a" where
  "item r k = (if k < length r then Inr (r ! k) else Inl IndexError)"

definition convert_one :: "'f float_ops \<Rightarrow> string \<Rightarrow> 'f pyval list \<Rightarrow> error + 'f db_row" where
  "convert_one F now r =
     bind (bind (item r 0) (none_or F (py_str F))) (\<lambda>v0.
     bind (bind (item r 1) (none_or F (py_str F))) (\<lambda>v1.
     bind (bind (item r 2) (none_or F (py_int F))) (\<lambda>v2.
     bind (bind (item r 3) (none_or F (py_int F))) (\<lambda>v3.
     bind (bind (item r 4) (none_or F (py_int F))) (\<lambda>v4.
     bind (bind (item r 5) (none_or F (py_str F))) (\<lambda>v5.
     bind (bind (item r 6) (none_or F (py_str F))) (\<lambda>v6.
     bind (bind (item r 7) (none_or F (py_int F))) (\<lambda>v7.
     bind (bind (item r 8) (none_or F (py_float F))) (\<lambda>v8.
     Inr \<lparr>db_url = v0, db_regnr = v1, db_model_year = v2, db_price_sek = v3,
          db_odometer_km = v4, db_fuel = v5, db_body_type = v6, db_horsepower = v7,
          db_price_per_1000km = v8, db_load_ts = now\<rparr>)))))))))"

fun convert_rows :: "'f float_ops \<Rightarrow> string \<Rightarrow> 'f pyval list list \<Rightarrow> error + 'f db_row list" where
  "convert_rows F now [] = Inr []"
| "convert_rows F now (r # rs) =
     bind (convert_one F now r) (\<lambda>t. bind (convert_rows F now rs) (\<lambda>ts. Inr (t # ts)))"

definition convert_row_for_db ::
  "'f float_ops \<Rightarrow> clock \<Rightarrow> 'f pyval list list \<Rightarrow> (error + 'f db_row list) \<times> clock" where
  "convert_row_for_db F clk rs =
     (let (now, clk') = utcnow_isoformat clk in (convert_rows F now rs, clk'))"

text \<open>\<open>df.itertuples(index=False, name=None)\<close> on a transformed table.\<close>

definition cell_of_text :: "string option \<Rightarrow> 'f pyval" where
  "cell_of_text v = (case v of None \<Rightarrow> PdNA | Some s \<Rightarrow> PyStr s)"

definition cell_of_Int64 :: "int option \<Rightarrow> 'f pyval" where
  "cell_of_Int64 v = (case v of None \<Rightarrow> PdNA | Some i \<Rightarrow> PyInt i)"

definition itertuples :: "(int \<times> 'f car) list \<Rightarrow> 'f pyval list list" where
  "itertuples df =
     map (\<lambda>(i, c). [cell_of_text (url c), cell_of_text (regnr c), cell_of_Int64 (model_year c),
                    cell_of_Int64 (price_sek c), cell_of_Int64 (odometer_km c),
                    cell_of_text (fuel c), cell_of_text (body_type c),
                    cell_of_Int64 (horsepower c), PyFloat (price_per_1000km c)]) df"

section \<open>The store\<close>

subsection \<open>The table \<open>fact_cars\<close> and the UPSERT statement\<close>

text \<open>
  A table is the list of its rows in insertion order. Binding the parameters of the
  statement: an integer outside the int64 range is refused by the \<open>sqlite3\<close> module with
  OverflowError, and a not-a-number float is stored as NULL.
\<close>

definition int_param :: "int option \<Rightarrow> error + int option" where
  "int_param v = (case v of None \<Rightarrow> Inr None | Some i \<Rightarrow> if in_int64 i then Inr (Some i) else Inl OverflowError)"

definition real_param :: "'f float_ops \<Rightarrow> 'f option \<Rightarrow> 'f option" where
  "real_param F v = (case v of None \<Rightarrow> None | Some x \<Rightarrow> if isnan F x then None else Some x)"

definition bind_params :: "'f float_ops \<Rightarrow> 'f db_row \<Rightarrow> error + 'f db_row" where
  "bind_params F t =
     bind (int_param (db_model_year t)) (\<lambda>y.
     bind (int_param (db_price_sek t)) (\<lambda>p.
     bind (int_param (db_odometer_km t)) (\<lambda>k.
     bind (int_param (db_horsepower t)) (\<lambda>h.
     Inr (t\<lparr>db_model_year := y, db_price_sek := p, db_odometer_km := k, db_horsepower := h,
            db_price_per_1000km := real_param F (db_price_per_1000km t)\<rparr>)))))"

text \<open>The CHECK constraints of the DDL; \<open>load_ts\<close> is a string, so NOT NULL holds.\<close>

definition check_constraints :: "'f float_ops \<Rightarrow> 'f db_row \<Rightarrow> bool" where
  "check_constraints F t \<longleftrightarrow>
     (case db_model_year t of None \<Rightarrow> True | Some y \<Rightarrow> y \<ge> 1900) \<and>
     (case db_price_sek t of None \<Rightarrow> True | Some p \<Rightarrow> p \<ge> 0) \<and>
     (case db_odometer_km t of None \<Rightarrow> True | Some k \<Rightarrow> k \<ge> 0) \<and>
     (case db_horsepower t of None \<Rightarrow> True | Some h \<Rightarrow> h \<ge> 0) \<and>
     (case db_price_per_1000km t of None \<Rightarrow> True | Some x \<Rightarrow> ge_zero F x)"

text \<open>
  A UNIQUE column (\<open>url\<close> as primary key, \<open>regnr\<close>) admits any number of NULLs; two rows
  conflict when both hold the same text.
\<close>

definition conflicts :: "string option \<Rightarrow> string option \<Rightarrow> bool" where
  "conflicts a b \<longleftrightarrow> a \<noteq> None \<and> a = b"

text \<open>
  \<open>on conflict(url) do update set ...\<close>: the stored row keeps its \<open>url\<close> and takes every
  other column from the incoming ("excluded") row.
\<close>

definition do_update :: "'f db_row \<Rightarrow> 'f db_row \<Rightarrow> 'f db_row" where
  "do_update excluded s =
     s\<lparr>db_regnr := db_regnr excluded,
       db_model_year := db_model_year excluded,
       db_price_sek := db_price_sek excluded,
       db_odometer_km := db_odometer_km excluded,
       db_fuel := db_fuel excluded,
       db_body_type := db_body_type excluded,
       db_horsepower := db_horsepower excluded,
       db_price_per_1000km := db_price_per_1000km excluded,
       db_load_ts := db_load_ts excluded\<rparr>"

text \<open>
  One execution of \<open>UPSERT_SQL\<close> on a table. The CHECK constraints are tested on the
  incoming row first. A row whose \<open>url\<close> is stored already is updated, any other row is
  inserted; either way a \<open>regnr\<close> held by another row aborts the statement, which then
  leaves the table as it was.
\<close>

definition UPSERT_SQL :: "'f float_ops \<Rightarrow> 'f db_row list \<Rightarrow> 'f db_row \<Rightarrow> error + 'f db_row list" where
  "UPSERT_SQL F tbl t0 =
     bind (bind_params F t0) (\<lambda>t.
       if \<not> check_constraints F t then Inl IntegrityError
       else if list_ex (\<lambda>s. conflicts (db_url t) (db_url s)) tbl then
         (if list_ex (\<lambda>s. \<not> conflicts (db_url t) (db_url s) \<and> conflicts (db_regnr t) (db_regnr s)) tbl
          then Inl IntegrityError
          else Inr (map (\<lambda>s. if conflicts (db_url t) (db_url s) then do_update t s else s) tbl))
       else
         (if list_ex (\<lambda>s. conflicts (db_regnr t) (db_regnr s)) tbl then Inl IntegrityError
          else Inr (tbl @ [t])))"

subsection \<open>Connections and transactions\<close>

text \<open>
  A connection sees the committed table of the database file (\<open>None\<close> while the table
  does not exist), the working copy of the open transaction if there is one, and counts
  the statements it has executed.
\<close>

record 'f conn =
  fact_cars :: "'f db_row list option"
  txn :: "'f db_row list option"
  executed :: nat

text \<open>\<open>get_conn\<close> opens the file and runs three pragmas.\<close>

definition get_conn :: "'f db_row list option \<Rightarrow> 'f conn" where
  "get_conn db = \<lparr>fact_cars = db, txn = None, executed = 3\<rparr>"

definition commit :: "'f conn \<Rightarrow> 'f conn" where
  "commit c = (case txn c of None \<Rightarrow> c | Some w \<Rightarrow> c\<lparr>fact_cars := Some w, txn := None\<rparr>)"

definition rollback :: "'f conn \<Rightarrow> 'f conn" where
  "rollback c = c\<lparr>txn := None\<rparr>"

text \<open>\<open>conn.close()\<close> drops an open transaction; what remains is the file.\<close>

definition close :: "'f conn \<Rightarrow> 'f db_row list option" where
  "close c = fact_cars (rollback c)"

text \<open>
  \<open>init_schema\<close>: \<open>executescript\<close> commits what is pending and runs the DDL, which
  creates the empty table when there is none.
\<close>

definition init_schema :: "'f conn \<Rightarrow> 'f conn" where
  "init_schema c =
     (let c1 = commit c
      in commit (c1\<lparr>fact_cars := (case fact_cars c1 of None \<Rightarrow> Some [] | Some t \<Rightarrow> Some t),
                    executed := Suc (executed c1)\<rparr>))"

text \<open>
  One statement of \<open>executemany\<close>. The \<open>sqlite3\<close> module opens a transaction before the
  first INSERT; a statement that fails is undone alone and the transaction stays open.
\<close>

definition execute :: "'f float_ops \<Rightarrow> 'f conn \<Rightarrow> 'f db_row \<Rightarrow> (error + unit) \<times> 'f conn" where
  "execute F c t =
     (case (case txn c of None \<Rightarrow> fact_cars c | Some w \<Rightarrow> Some w) of
        None \<Rightarrow> (Inl OperationalError, c)
      | Some cur \<Rightarrow>
          (case UPSERT_SQL F cur t of
             Inl e \<Rightarrow> (Inl e, c\<lparr>txn := Some cur, executed := Suc (executed c)\<rparr>)
           | Inr w \<Rightarrow> (Inr (), c\<lparr>txn := Some w, executed := Suc (executed c)\<rparr>)))"

fun executemany :: "'f float_ops \<Rightarrow> 'f conn \<Rightarrow> 'f db_row list \<Rightarrow> (error + unit) \<times> 'f conn" where
  "executemany F c [] = (Inr (), c)"
| "executemany F c (t # ts) =
     (case execute F c t of
        (Inl e, c') \<Rightarrow> (Inl e, c')
      | (Inr u, c') \<Rightarrow> executemany F c' ts)"

text \<open>\<open>upsert_cars\<close>: \<open>with conn:\<close> commits when its body ends and rolls back when it raises.\<close>

definition upsert_cars :: "'f float_ops \<Rightarrow> 'f conn \<Rightarrow> 'f db_row list \<Rightarrow> (error + nat) \<times> 'f conn" where
  "upsert_cars F c rows_list =
     (if rows_list = [] then (Inr 0, c)
      else case executemany F c rows_list of
             (Inl e, c') \<Rightarrow> (Inl e, rollback c')
           | (Inr u, c') \<Rightarrow> (Inr (length rows_list), commit c'))"

subsection \<open>\<open>load_cars\<close>\<close>

text \<open>
  The table arrives as the tuples \<open>itertuples\<close> yields. The result is what the call
  returns or raises, the database file after \<open>conn.close()\<close>, and the clock.
\<close>

definition load_cars ::
  "'f float_ops \<Rightarrow> 'f db_row list option \<Rightarrow> clock \<Rightarrow> 'f pyval list list
     \<Rightarrow> (error + nat) \<times> 'f db_row list option \<times> clock" where
  "load_cars F db clk df =
     (let conn = init_schema (get_conn db);
          (rs, clk') = convert_row_for_db F clk df
      in case rs of
           Inl e \<Rightarrow> (Inl e, close conn, clk')
         | Inr ts \<Rightarrow> (let (affected, conn') = upsert_cars F conn ts in (affected, close conn', clk')))"

section \<open>An instance for evaluation: exact arithmetic\<close>

text \<open>
  To run the definitions on concrete tables, floats are instantiated by the rationals
  with one extra not-a-number value (\<open>None\<close>) and no infinity; the operations are the
  exact ones, with not-a-number for a division by zero. The parsers know the few texts
  used below.
\<close>

definition exact_round2 :: "rat \<Rightarrow> rat" where
  "exact_round2 x = of_int \<lfloor>x * 100 + 1 / 2\<rfloor> / 100"

definition exact_whole :: "rat \<Rightarrow> int option" where
  "exact_whole x = (if of_int \<lfloor>x\<rfloor> = x \<and> in_int64 \<lfloor>x\<rfloor> then Some \<lfloor>x\<rfloor> else None)"

definition exact_ops :: "rat option float_ops" where
  "exact_ops =
     \<lparr>nan = None,
      isnan = (\<lambda>x. x = None),
      float_of_int = (\<lambda>i. Some (of_int i)),
      fdiv = (\<lambda>a b. case (a, b) of (Some x, Some y) \<Rightarrow> if y = 0 then None else Some (x / y) | _ \<Rightarrow> None),
      fmul = (\<lambda>a b. case (a, b) of (Some x, Some y) \<Rightarrow> Some (x * y) | _ \<Rightarrow> None),
      round2 = map_option exact_round2,
      eq_zero = (\<lambda>x. x = Some 0),
      ge_zero = (\<lambda>x. case x of None \<Rightarrow> False | Some q \<Rightarrow> q \<ge> 0),
      exact_int64 = (\<lambda>x. case x of None \<Rightarrow> None | Some q \<Rightarrow> exact_whole q),
      isinf = (\<lambda>x. False),
      inf_cast_error = (\<lambda>xs. OverflowError),
      str_of_float = (\<lambda>x. ''float''),
      to_numeric_str = (\<lambda>s. if s = ''150'' then Some (PyInt 150) else None),
      int_of_float = (\<lambda>x. case x of None \<Rightarrow> Inl ValueError | Some q \<Rightarrow> Inr (if q < 0 then - \<lfloor>- q\<rfloor> else \<lfloor>q\<rfloor>)),
      int_of_str = (\<lambda>s. Inl ValueError),
      float_of_str = (\<lambda>s. Inl ValueError)\<rparr>"

section \<open>Example tables\<close>

text \<open>
  \<open>raw_row\<close> builds a spreadsheet row from its eight cells, in the order of
  \<open>COLUMN_MAP\<close>. The example table has a row with a blank url, two rows whose urls are
  equal after cleanup, a zero odometer, a missing price and an odometer that is no number.
  Two further tables have one row each: one with a missing price and the odometer 0.5,
  one with the price 199999.5.
\<close>

definition raw_row :: "'f pyval \<Rightarrow> 'f pyval \<Rightarrow> 'f pyval \<Rightarrow> 'f pyval \<Rightarrow> 'f pyval \<Rightarrow> 'f pyval \<Rightarrow> 'f pyval \<Rightarrow> 'f pyval
    \<Rightarrow> string \<Rightarrow> 'f pyval" where
  "raw_row u reg year price odo fl body hp =
     (\<lambda>h. case map_of (zip (map fst COLUMN_MAP) [u, reg, year, price, odo, fl, body, hp]) h of
            None \<Rightarrow> PyNone | Some v \<Rightarrow> v)"

definition example_table :: "rat option dataframe" where
  "example_table =
     \<lparr>columns = map fst COLUMN_MAP,
      rows =
        [(0, raw_row (PyStr ''http://x/1'') (PyStr ''ABC123'') (PyInt 2020) (PyInt 200000) (PyInt 5000)
               (PyStr ''Bensin'') (PyStr ''Kombi'') (PyInt 150)),
         (1, raw_row (PyStr ''  '') (PyStr ''DEF456'') (PyInt 2019) (PyInt 90000) (PyInt 3000)
               (PyStr ''Diesel'') (PyStr ''SUV'') (PyInt 120)),
         (2, raw_row (PyStr ''http://x/2'') (PyStr ''GHI789'') (PyInt 2018) (PyInt 100000) (PyInt 0)
               (PyStr ''El'') (PyStr ''Sedan'') (PyStr ''150'')),
         (3, raw_row (PyStr ''http://x/1 '') (PyStr ''JKL012'') (PyInt 2021) PyNone (PyStr ''abc'')
               (PyStr []) (PyStr ''Kombi'') (PyInt 160)),
         (4, raw_row (PyStr ''http://x/3'') PdNA (PyInt 2020) (PyInt 200000) (PyInt 5000)
               (PyStr ''Bensin'') (PyStr ''Kombi'') (PyInt 150))]\<rparr>"

definition example_norm :: "(int \<times> norm) list" where
  "example_norm =
     [(0, \<lparr>url = Some ''http://x/1'', regnr = Some ''ABC123'', model_year = Some 2020,
           price_sek = Some 200000, odometer_km = Some 5000, fuel = Some ''Bensin'',
           body_type = Some ''Kombi'', horsepower = Some 150\<rparr>),
      (1, \<lparr>url = None, regnr = Some ''DEF456'', model_year = Some 2019,
           price_sek = Some 90000, odometer_km = Some 3000, fuel = Some ''Diesel'',
           body_type = Some ''SUV'', horsepower = Some 120\<rparr>),
      (2, \<lparr>url = Some ''http://x/2'', regnr = Some ''GHI789'', model_year = Some 2018,
           price_sek = Some 100000, odometer_km = Some 0, fuel = Some ''El'',
           body_type = Some ''Sedan'', horsepower = Some 150\<rparr>),
      (3, \<lparr>url = Some ''http://x/1'', regnr = Some ''JKL012'', model_year = Some 2021,
           price_sek = None, odometer_km = None, fuel = None,
           body_type = Some ''Kombi'', horsepower = Some 160\<rparr>),
      (4, \<lparr>url = Some ''http://x/3'', regnr = None, model_year = Some 2020,
           price_sek = Some 200000, odometer_km = Some 5000, fuel = Some ''Bensin'',
           body_type = Some ''Kombi'', horsepower = Some 150\<rparr>)]"

definition example_out :: "(int \<times> rat option car) list" where
  "example_out =
     [(0, \<lparr>url = Some ''http://x/2'', regnr = Some ''GHI789'', model_year = Some 2018,
           price_sek = Some 100000, odometer_km = Some 0, fuel = Some ''El'',
           body_type = Some ''Sedan'', horsepower = Some 150, price_per_1000km = None\<rparr>),
      (1, \<lparr>url = Some ''http://x/1'', regnr = Some ''JKL012'', model_year = Some 2021,
           price_sek = None, odometer_km = None, fuel = None,
           body_type = Some ''Kombi'', horsepower = Some 160, price_per_1000km = None\<rparr>),
      (2, \<lparr>url = Some ''http://x/3'', regnr = None, model_year = Some 2020,
           price_sek = Some 200000, odometer_km = Some 5000, fuel = Some ''Bensin'',
           body_type = Some ''Kombi'', horsepower = Some 150, price_per_1000km = Some 40000\<rparr>)]"

definition missing_price_table :: "rat option dataframe" where
  "missing_price_table =
     \<lparr>columns = map fst COLUMN_MAP,
      rows =
        [(0, raw_row (PyStr ''http://x/1'') (PyStr ''ABC123'') (PyInt 2020) PyNone
               (PyFloat (Some (1 / 2))) (PyStr ''Bensin'') (PyStr ''Kombi'') (PyInt 150))]\<rparr>"

definition fractional_table :: "rat option dataframe" where
  "fractional_table =
     \<lparr>columns = map fst COLUMN_MAP,
      rows =
        [(0, raw_row (PyStr ''http://x/1'') (PyStr ''ABC123'') (PyInt 2020) (PyFloat (Some (399999 / 2)))
               (PyInt 5000) (PyStr ''Bensin'') (PyStr ''Kombi'') (PyInt 150))]\<rparr>"

section \<open>Notions used in the statements\<close>

text \<open>
  A value is semantically missing when it is \<open>None\<close>, \<open>pd.NA\<close> or a not-a-number float:
  the three encodings the specification names.
\<close>

definition is_missing :: "'f float_ops \<Rightarrow> 'f pyval \<Rightarrow> bool" where
  "is_missing F v \<longleftrightarrow> v = PyNone \<or> v = PdNA \<or> (case v of PyFloat x \<Rightarrow> isnan F x | _ \<Rightarrow> False)"

text \<open>
  The rows of a batch applied to a table one after the other, with no transaction around
  them: the table when "all rows are applied", or the error of the first row that fails.
\<close>

fun upsert_all :: "'f float_ops \<Rightarrow> 'f db_row list \<Rightarrow> 'f db_row list \<Rightarrow> error + 'f db_row list" where
  "upsert_all F tbl [] = Inr tbl"
| "upsert_all F tbl (t # ts) = bind (UPSERT_SQL F tbl t) (\<lambda>tbl'. upsert_all F tbl' ts)"

text \<open>The table with a new \<open>load_ts\<close> on the rows of the given urls.\<close>

definition restamp :: "string \<Rightarrow> string option list \<Rightarrow> 'f db_row list \<Rightarrow> 'f db_row list" where
  "restamp now urls tbl = map (\<lambda>s. if db_url s \<in> set urls then s\<lparr>db_load_ts := now\<rparr> else s) tbl"

text \<open>The table a connection works on, and the rows of a database file.\<close>

definition working :: "'f conn \<Rightarrow> 'f db_row list option" where
  "working c = (case txn c of None \<Rightarrow> fact_cars c | Some w \<Rightarrow> Some w)"

definition table_of :: "'f db_row list option \<Rightarrow> 'f db_row list" where
  "table_of db = (case db of None \<Rightarrow> [] | Some t \<Rightarrow> t)"

text \<open>
  A batch row is settled in a table when the table holds it: it passes the checks, its
  url is stored, every row of that url is the row as bound, and no row of another url
  holds its registration number.
\<close>

definition settled :: "'f float_ops \<Rightarrow> 'f db_row list \<Rightarrow> 'f db_row \<Rightarrow> bool" where
  "settled F tbl t \<longleftrightarrow>
     (case bind_params F t of
        Inl e \<Rightarrow> False
      | Inr t' \<Rightarrow>
          check_constraints F t' \<and> db_url t \<noteq> None \<and>
          (\<exists>s \<in> set tbl. db_url s = db_url t) \<and>
          (\<forall>s \<in> set tbl. db_url s = db_url t \<longrightarrow> s = t') \<and>
          (\<forall>s \<in> set tbl. db_url s \<noteq> db_url t \<longrightarrow> \<not> conflicts (db_regnr t) (db_regnr s)))"

section \<open>Example store\<close>

text \<open>
  A clock whose first two readings differ, the table after loading the transformed
  example, a connection on it, a row that is null in every field but the key, a batch
  whose second row has a negative price, and a tuple whose fields use the three
  encodings of a missing value.
\<close>

definition example_clock :: clock where
  "example_clock =
     \<lparr>readings = (\<lambda>k. if k = 0 then ''2024-01-01T00:00:00+00:00'' else ''2024-01-02T00:00:00+00:00''),
      reads = 0\<rparr>"

definition example_stored :: "rat option db_row list" where
  "example_stored =
     [\<lparr>db_url = Some ''http://x/2'', db_regnr = Some ''GHI789'', db_model_year = Some 2018,
       db_price_sek = Some 100000, db_odometer_km = Some 0, db_fuel = Some ''El'',
       db_body_type = Some ''Sedan'', db_horsepower = Some 150, db_price_per_1000km = None,
       db_load_ts = ''2024-01-01T00:00:00+00:00''\<rparr>,
      \<lparr>db_url = Some ''http://x/1'', db_regnr = Some ''JKL012'', db_model_year = Some 2021,
       db_price_sek = None, db_odometer_km = None, db_fuel = None,
       db_body_type = Some ''Kombi'', db_horsepower = Some 160, db_price_per_1000km = None,
       db_load_ts = ''2024-01-01T00:00:00+00:00''\<rparr>,
      \<lparr>db_url = Some ''http://x/3'', db_regnr = None, db_model_year = Some 2020,
       db_price_sek = Some 200000, db_odometer_km = Some 5000, db_fuel = Some ''Bensin'',
       db_body_type = Some ''Kombi'', db_horsepower = Some 150, db_price_per_1000km = Some (Some 40000),
       db_load_ts = ''2024-01-01T00:00:00+00:00''\<rparr>]"

definition example_reloaded :: "rat option db_row list" where
  "example_reloaded = map (\<lambda>s. s\<lparr>db_load_ts := ''2024-01-02T00:00:00+00:00''\<rparr>) example_stored"

definition example_conn :: "rat option conn" where
  "example_conn = \<lparr>fact_cars = Some example_stored, txn = None, executed = 4\<rparr>"

definition null_row :: "rat option db_row" where
  "null_row =
     \<lparr>db_url = Some ''http://x/1'', db_regnr = None, db_model_year = None,
      db_price_sek = None, db_odometer_km = None, db_fuel = None,
      db_body_type = None, db_horsepower = None, db_price_per_1000km = None,
      db_load_ts = ''2024-01-02T00:00:00+00:00''\<rparr>"

definition bad_batch :: "rat option db_row list" where
  "bad_batch =
     [null_row\<lparr>db_url := Some ''http://x/9''\<rparr>,
      null_row\<lparr>db_url := Some ''http://x/8'', db_price_sek := Some (- 5)\<rparr>]"

definition missing_tuple :: "rat option pyval list" where
  "missing_tuple =
     [PyStr ''http://x/7'', PyNone, PdNA, PyFloat None, PyInt 5000, PyNone, PdNA, PyFloat None, PyFloat None]"

section \<open>Properties of the transform\<close>

lemma bind_Inr_iff: "bind m f = Inr y \<longleftrightarrow> (\<exists>x. m = Inr x \<and> f x = Inr y)"
  by (cases m) (simp_all add: bind_def)

lemma bind_Inr: "bind (Inr x) f = f x"
  by (simp add: bind_def)

lemma bind_Inl: "bind (Inl e) f = Inl e"
  by (simp add: bind_def)

lemma length_safe_get: "length (safe_get df col) = length (rows df)"
  by (simp add: safe_get_def)

lemma length_astype_Int64:
  "astype_Int64 F c = Inr xs \<Longrightarrow>
   length xs = (case c of Int64Col is \<Rightarrow> length is | UInt64Col is \<Rightarrow> length is | Float64Col fs \<Rightarrow> length fs)"
  by (auto simp: astype_Int64_def split: numeric_col.splits if_splits)

lemma length_to_numeric:
  "to_numeric F col = Inr c \<Longrightarrow>
   (case c of Int64Col is \<Rightarrow> length is | UInt64Col is \<Rightarrow> length is | Float64Col fs \<Rightarrow> length fs) = length col"
  by (auto simp: to_numeric_def Let_def split: if_splits)

lemma length_numeric_column: "numeric_column F col = Inr xs \<Longrightarrow> length xs = length col"
  by (auto simp: numeric_column_def bind_Inr_iff dest!: length_astype_Int64 length_to_numeric)

lemma text_column_url: "text_column F (renamed df) ''url'' = Inr (map (clean_text F) (safe_get df ''Url''))"
  by (simp add: text_column_def getcol_def renamed_def COLUMN_MAP_def)

lemma text_column_regnr: "text_column F (renamed df) ''regnr'' = Inr (map (clean_text F) (safe_get df ''Registreringsnummer''))"
  by (simp add: text_column_def getcol_def renamed_def COLUMN_MAP_def)

lemma text_column_fuel: "text_column F (renamed df) ''fuel'' = Inr (map (clean_text F) (safe_get df (''Br'' @ [CHR 0xE4] @ ''nsle'')))"
  by (simp add: text_column_def getcol_def renamed_def COLUMN_MAP_def)

lemma text_column_body: "text_column F (renamed df) ''body_type'' = Inr (map (clean_text F) (safe_get df ''Biltyp''))"
  by (simp add: text_column_def getcol_def renamed_def COLUMN_MAP_def)

lemma int_column_year: "int_column F (renamed df) ''model_year'' = numeric_column F (safe_get df (''Modell'' @ [CHR 0xE5] @ ''r''))"
  by (simp add: int_column_def getcol_def renamed_def COLUMN_MAP_def)

lemma int_column_price: "int_column F (renamed df) ''price_sek'' = numeric_column F (safe_get df ''Pris (kr)'')"
  by (simp add: int_column_def getcol_def renamed_def COLUMN_MAP_def)

lemma int_column_odo: "int_column F (renamed df) ''odometer_km'' = numeric_column F (safe_get df (''M'' @ [CHR 0xE4] @ ''tarst'' @ [CHR 0xE4] @ ''llning (km)''))"
  by (simp add: int_column_def getcol_def renamed_def COLUMN_MAP_def)

lemma int_column_hp: "int_column F (renamed df) ''horsepower'' = numeric_column F (safe_get df (''H'' @ [CHR 0xE4] @ ''stkrafter''))"
  by (simp add: int_column_def getcol_def renamed_def COLUMN_MAP_def)

lemmas columns_simps = text_column_url text_column_regnr text_column_fuel text_column_body
  int_column_year int_column_price int_column_odo int_column_hp

lemma normalize_columns_url:
  assumes "normalize_columns F df = Inr out"
  shows "map (\<lambda>q. url (snd q)) out = map (clean_text F) (safe_get df ''Url'')"
  using assms
  by (auto simp: normalize_columns_def Let_def columns_simps bind_Inr bind_Inr_iff o_def length_safe_get intro!: nth_equalityI)

lemma length_normalize_columns:
  assumes "normalize_columns F df = Inr out"
  shows "length out = length (rows df)"
  using assms
  by (auto simp: normalize_columns_def Let_def columns_simps bind_Inr bind_Inr_iff)


lemma set_reset_index: "snd ` set (reset_index rs) = snd ` set rs"
proof -
  have "map snd (reset_index rs) = map snd rs"
    by (simp add: reset_index_def)
  then have "set (map snd (reset_index rs)) = set (map snd rs)" by simp
  then show ?thesis by simp
qed

lemma map_snd_reset_index: "map snd (reset_index rs) = map snd rs"
  by (simp add: reset_index_def)

lemma map_fst_reset_index: "map fst (reset_index rs) = map int [0 ..< length rs]"
  by (simp add: reset_index_def)

lemma length_reset_index: "length (reset_index rs) = length rs"
  by (simp add: reset_index_def)

lemma set_drop_duplicates_last: "set (drop_duplicates_last rs) \<subseteq> set rs"
  by (induction rs) auto

lemma subseq_drop_duplicates_last: "subseq (drop_duplicates_last rs) rs"
  by (induction rs) auto

lemma urls_drop_duplicates_last:
  "(\<lambda>q. url (snd q)) ` set (drop_duplicates_last rs) = (\<lambda>q. url (snd q)) ` set rs"
  by (induction rs) auto

lemma distinct_drop_duplicates_last: "distinct (map (\<lambda>q. url (snd q)) (drop_duplicates_last rs))"
proof (induction rs)
  case Nil
  then show ?case by simp
next
  case (Cons r rs)
  have "(\<lambda>q. url (snd q)) ` set (drop_duplicates_last rs) = (\<lambda>q. url (snd q)) ` set rs"
    by (rule urls_drop_duplicates_last)
  with Cons show ?case by auto
qed

lemma last_drop_duplicates_last:
  "r \<in> set (drop_duplicates_last rs) \<Longrightarrow> last (filter (\<lambda>q. url (snd q) = url (snd r)) rs) = r"
proof (induction rs)
  case Nil
  then show ?case by simp
next
  case (Cons a rs)
  show ?case
  proof (cases "url (snd a) \<in> set (map (\<lambda>q. url (snd q)) rs)")
    case True
    with Cons.prems have in_rest: "r \<in> set (drop_duplicates_last rs)" by simp
    then have "r \<in> set rs" using set_drop_duplicates_last by blast
    then have "filter (\<lambda>q. url (snd q) = url (snd r)) rs \<noteq> []"
      by (auto simp: filter_empty_conv)
    with Cons.IH [OF in_rest] show ?thesis by simp
  next
    case False
    show ?thesis
    proof (cases "r = a")
      case True
      from False have "\<forall>q \<in> set rs. url (snd q) \<noteq> url (snd a)"
        by (metis (mono_tags, lifting) image_eqI set_map)
      with True have "filter (\<lambda>q. url (snd q) = url (snd r)) rs = []"
        by (simp add: filter_empty_conv)
      with True show ?thesis by simp
    next
      case neq: False
      with False Cons.prems have in_rest: "r \<in> set (drop_duplicates_last rs)" by simp
      then have "r \<in> set rs" using set_drop_duplicates_last by blast
      with False have "url (snd a) \<noteq> url (snd r)" by auto
      with Cons.IH [OF in_rest] show ?thesis by simp
    qed
  qed
qed

lemma p_per_1000_present:
  assumes "ieee F" "price_sek r = Some p" "odometer_km r = Some k" "k \<noteq> 0"
  shows "p_per_1000 F r = round2 F (fmul F (fdiv F (float_of_int F p) (float_of_int F k)) (float_of_int F 1000))"
  using assms by (simp add: p_per_1000_def astype_float_def ieee_def Let_def)

lemma p_per_1000_missing:
  assumes "ieee F" "price_sek r = None \<or> odometer_km r = None \<or> odometer_km r = Some 0"
  shows "isnan F (p_per_1000 F r)"
  using assms by (auto simp: p_per_1000_def astype_float_def ieee_def Let_def split: option.splits)

lemma with_price_simps:
  "price_per_1000km (with_price F r) = p_per_1000 F r"
  "url (with_price F r) = url r"
  "price_sek (with_price F r) = price_sek r"
  "odometer_km (with_price F r) = odometer_km r"
  by (simp_all add: with_price_def norm.defs car.defs)

lemma transform_cars_Inr:
  "normalize_columns F df = Inr out \<Longrightarrow>
   transform_cars F df = Inr (reset_index (drop_duplicates_last (notna_url (add_price F out))))"
  by (simp add: transform_cars_def)

lemma transform_rows_subset:
  "snd ` set (reset_index (drop_duplicates_last (notna_url (add_price F out)))) \<subseteq> with_price F ` snd ` set out"
proof -
  have "set (drop_duplicates_last (notna_url (add_price F out))) \<subseteq> set (add_price F out)"
    using set_drop_duplicates_last [of "notna_url (add_price F out)"] by (auto simp: notna_url_def)
  moreover have "snd ` set (add_price F out) = with_price F ` snd ` set out"
    by (force simp: add_price_def)
  ultimately show ?thesis unfolding set_reset_index by blast
qed

lemma distinct_transform_urls:
  assumes "transform_cars F df = Inr res"
  shows "distinct (map (\<lambda>q. url (snd q)) res)"
proof -
  from assms obtain out where res: "res = reset_index (drop_duplicates_last (notna_url (add_price F out)))"
    by (auto simp: transform_cars_def split: sum.splits)
  have "map (\<lambda>q. url (snd q)) res = map url (map snd res)" by (simp add: o_def)
  also have "\<dots> = map url (map snd (drop_duplicates_last (notna_url (add_price F out))))"
    by (simp only: res map_snd_reset_index)
  finally have "map (\<lambda>q. url (snd q)) res =
      map (\<lambda>q. url (snd q)) (drop_duplicates_last (notna_url (add_price F out)))"
    by (simp add: o_def)
  then show ?thesis by (simp only: distinct_drop_duplicates_last)
qed

lemma set_notna_add_price:
  "snd ` set (notna_url (add_price F out)) = {c \<in> with_price F ` snd ` set out. url c \<noteq> None}"
proof -
  have "snd ` set (notna_url (add_price F out)) = {c \<in> snd ` set (add_price F out). url c \<noteq> None}"
    unfolding notna_url_def by force
  moreover have "snd ` set (add_price F out) = with_price F ` snd ` set out"
    unfolding add_price_def by force
  ultimately show ?thesis by simp
qed

lemma image_present: "f ` {c \<in> A. f c \<noteq> None} = f ` A - {None}"
  by auto

subsection \<open>The derived metric\<close>

text \<open>
  Once numeric coercion has returned, \<open>transform_cars\<close> returns the table built from the
  normalised rows and raises nothing, and in every row, of the output and of the
  normalised input, the derived field is \<open>round(price / odometer * 1000.0, 2)\<close> when price
  and odometer are present and the odometer is not zero, and not-a-number when the price
  is missing, the odometer is missing or the odometer is zero.
\<close>

lemma price_rule_after_coercion:
  assumes "ieee F" and "normalize_columns F df = Inr out"
  shows "transform_cars F df = Inr (reset_index (drop_duplicates_last (notna_url (add_price F out))))"
    and "\<forall>c \<in> snd ` set (reset_index (drop_duplicates_last (notna_url (add_price F out))))
               \<union> with_price F ` snd ` set out.
           (\<forall>p k. price_sek c = Some p \<and> odometer_km c = Some k \<and> k \<noteq> 0 \<longrightarrow>
              price_per_1000km c =
                round2 F (fmul F (fdiv F (float_of_int F p) (float_of_int F k)) (float_of_int F 1000))) \<and>
           (price_sek c = None \<or> odometer_km c = None \<or> odometer_km c = Some 0 \<longrightarrow>
              isnan F (price_per_1000km c))"
proof -
  show "transform_cars F df = Inr (reset_index (drop_duplicates_last (notna_url (add_price F out))))"
    by (rule transform_cars_Inr [OF assms(2)])
  have rule: "\<And>r. (\<forall>p k. price_sek r = Some p \<and> odometer_km r = Some k \<and> k \<noteq> 0 \<longrightarrow>
                 p_per_1000 F r =
                   round2 F (fmul F (fdiv F (float_of_int F p) (float_of_int F k)) (float_of_int F 1000))) \<and>
              (price_sek r = None \<or> odometer_km r = None \<or> odometer_km r = Some 0 \<longrightarrow>
                 isnan F (p_per_1000 F r))"
    using p_per_1000_present [OF assms(1)] p_per_1000_missing [OF assms(1)] by blast
  have "snd ` set (reset_index (drop_duplicates_last (notna_url (add_price F out))))
          \<union> with_price F ` snd ` set out = with_price F ` snd ` set out"
    using transform_rows_subset [of F out] by blast
  then show "\<forall>c \<in> snd ` set (reset_index (drop_duplicates_last (notna_url (add_price F out))))
               \<union> with_price F ` snd ` set out.
           (\<forall>p k. price_sek c = Some p \<and> odometer_km c = Some k \<and> k \<noteq> 0 \<longrightarrow>
              price_per_1000km c =
                round2 F (fmul F (fdiv F (float_of_int F p) (float_of_int F k)) (float_of_int F 1000))) \<and>
           (price_sek c = None \<or> odometer_km c = None \<or> odometer_km c = Some 0 \<longrightarrow>
              isnan F (price_per_1000km c))"
    using rule by (auto simp: with_price_simps)
qed

text \<open>
  Claim C1. A row whose price cell is missing and whose odometer cell is the number 0.5
  is a row for which the claim has \<open>price_per_1000km\<close> missing and no exception raised:
  the cast of the odometer column to Int64 raises TypeError and \<open>transform_cars\<close> aborts
  before the derived field is computed.
\<close>

theorem missing_price_still_raises:
  "safe_get missing_price_table ''Pris (kr)'' = [PyNone] \<and>
   transform_cars exact_ops missing_price_table = Inl TypeError"
  by code_simp

subsection \<open>Duplicates\<close>

text \<open>
  Claim C2. The urls of the transformed table are pairwise different; they are the urls
  of the rows whose cleaned url is present; every output row is the last of the input rows
  with its url; the output rows are in their input order; and the index runs from zero.
\<close>

theorem url_unique_last_wins:
  assumes "normalize_columns F df = Inr out" and "transform_cars F df = Inr res"
  shows "distinct (map (\<lambda>q. url (snd q)) res) \<and>
         (\<lambda>q. url (snd q)) ` set res = (\<lambda>q. url (snd q)) ` set (notna_url (add_price F out)) \<and>
         (\<forall>c \<in> set res.
            snd c = snd (last (filter (\<lambda>q. url (snd q) = url (snd c)) (notna_url (add_price F out))))) \<and>
         subseq (map snd res) (map snd (notna_url (add_price F out))) \<and>
         map fst res = map int [0 ..< length res]"
proof -
  let ?cleaned = "notna_url (add_price F out)"
  let ?kept = "drop_duplicates_last ?cleaned"
  from assms have res: "res = reset_index ?kept"
    by (simp add: transform_cars_def)
  have snd_res: "map snd res = map snd ?kept"
    by (simp add: res map_snd_reset_index)
  have url_res: "map (\<lambda>q. url (snd q)) res = map (\<lambda>q. url (snd q)) ?kept"
  proof -
    have "map (\<lambda>q. url (snd q)) res = map url (map snd res)" by (simp add: o_def)
    also have "\<dots> = map url (map snd ?kept)" by (simp only: snd_res)
    finally show ?thesis by (simp add: o_def)
  qed
  have c1: "distinct (map (\<lambda>q. url (snd q)) res)"
    unfolding url_res by (rule distinct_drop_duplicates_last)
  have "set (map (\<lambda>q. url (snd q)) res) = set (map (\<lambda>q. url (snd q)) ?kept)"
    by (simp only: url_res)
  then have c2: "(\<lambda>q. url (snd q)) ` set res = (\<lambda>q. url (snd q)) ` set ?cleaned"
    using urls_drop_duplicates_last [of ?cleaned] by simp
  have c3: "\<forall>c \<in> set res. snd c = snd (last (filter (\<lambda>q. url (snd q) = url (snd c)) ?cleaned))"
  proof
    fix c assume "c \<in> set res"
    then have "snd c \<in> set (map snd res)" by simp
    then have "snd c \<in> set (map snd ?kept)" by (simp only: snd_res)
    then obtain r where r: "r \<in> set ?kept" "snd r = snd c" by auto
    from last_drop_duplicates_last [OF r(1)] r(2)
    show "snd c = snd (last (filter (\<lambda>q. url (snd q) = url (snd c)) ?cleaned))" by simp
  qed
  have c4: "subseq (map snd res) (map snd ?cleaned)"
    unfolding snd_res by (rule subseq_map) (rule subseq_drop_duplicates_last)
  have c5: "map fst res = map int [0 ..< length res]"
    by (simp add: res map_fst_reset_index length_reset_index)
  from c1 c2 c3 c4 c5 show ?thesis by (intro conjI)
qed

theorem url_unique_last_wins_witness:
  "normalize_columns exact_ops example_table = Inr example_norm \<and>
   transform_cars exact_ops example_table = Inr example_out \<and>
   distinct (map (\<lambda>q. url (snd q)) example_out) \<and>
   (\<lambda>q. url (snd q)) ` set example_out =
     (\<lambda>q. url (snd q)) ` set (notna_url (add_price exact_ops example_norm)) \<and>
   list_all (\<lambda>c. snd c =
       snd (last (filter (\<lambda>q. url (snd q) = url (snd c)) (notna_url (add_price exact_ops example_norm)))))
     example_out \<and>
   subseq (map snd example_out) (map snd (notna_url (add_price exact_ops example_norm))) \<and>
   map fst example_out = map int [0 ..< length example_out]"
proof -
  have a: "normalize_columns exact_ops example_table = Inr example_norm"
    by code_simp
  have b: "transform_cars exact_ops example_table = Inr example_out"
    by code_simp
  note c = url_unique_last_wins [OF a b]
  note c1 = c [THEN conjunct1]
  note c2 = c [THEN conjunct2, THEN conjunct1]
  note c3 = c [THEN conjunct2, THEN conjunct2, THEN conjunct1]
  note c4 = c [THEN conjunct2, THEN conjunct2, THEN conjunct2]
  have c3': "list_all (\<lambda>c. snd c =
       snd (last (filter (\<lambda>q. url (snd q) = url (snd c)) (notna_url (add_price exact_ops example_norm)))))
     example_out"
    by (rule list_all_iff [THEN iffD2]) (rule c3)
  show ?thesis
    by (rule conjI [OF a conjI [OF b conjI [OF c1 conjI [OF c2 conjI [OF c3' c4]]]]])
qed

subsection \<open>Rows without url\<close>

text \<open>
  Claim C6. The \<open>url\<close> column of the normalised table is the cleanup (text, stripped,
  empty as missing) of the \<open>Url\<close> cells. No output row has a missing url, every output row
  is an input row with a present url, and every present url occurs in the output, once.
\<close>

theorem rows_without_url_dropped:
  assumes "normalize_columns F df = Inr out" and "transform_cars F df = Inr res"
  shows "map (\<lambda>q. url (snd q)) out = map (clean_text F) (safe_get df ''Url'') \<and>
         (\<forall>c \<in> set res. url (snd c) \<noteq> None) \<and>
         snd ` set res \<subseteq> {c \<in> with_price F ` snd ` set out. url c \<noteq> None} \<and>
         (\<lambda>q. url (snd q)) ` set res = set (map (clean_text F) (safe_get df ''Url'')) - {None} \<and>
         distinct (map (\<lambda>q. url (snd q)) res)"
proof -
  let ?cleaned = "notna_url (add_price F out)"
  let ?kept = "drop_duplicates_last ?cleaned"
  from assms have res: "res = reset_index ?kept"
    by (simp add: transform_cars_def)
  have snd_res: "snd ` set res = snd ` set ?kept"
    by (simp add: res set_reset_index)
  have kept: "set ?kept \<subseteq> set ?cleaned"
    by (rule set_drop_duplicates_last)
  have cleaned: "snd ` set ?cleaned = {c \<in> with_price F ` snd ` set out. url c \<noteq> None}"
    by (rule set_notna_add_price)
  have c1: "map (\<lambda>q. url (snd q)) out = map (clean_text F) (safe_get df ''Url'')"
    by (rule normalize_columns_url [OF assms(1)])
  have "snd ` set res \<subseteq> snd ` set ?cleaned"
    unfolding snd_res using kept by (rule image_mono)
  then have c3: "snd ` set res \<subseteq> {c \<in> with_price F ` snd ` set out. url c \<noteq> None}"
    by (simp only: cleaned)
  then have c2: "\<forall>c \<in> set res. url (snd c) \<noteq> None" by auto
  have "url ` snd ` set res = url ` snd ` set ?kept"
    by (simp only: snd_res)
  also have "\<dots> = url ` snd ` set ?cleaned"
    using urls_drop_duplicates_last [of ?cleaned] by (simp add: image_image)
  also have "\<dots> = url ` {c \<in> with_price F ` snd ` set out. url c \<noteq> None}"
    by (simp only: cleaned)
  also have "\<dots> = url ` with_price F ` snd ` set out - {None}"
    by (rule image_present)
  also have "url ` with_price F ` snd ` set out = url ` snd ` set out"
    by (simp add: image_image with_price_simps)
  also have "url ` snd ` set out = set (map (\<lambda>q. url (snd q)) out)"
    by (simp add: image_image)
  finally have c4: "(\<lambda>q. url (snd q)) ` set res = set (map (clean_text F) (safe_get df ''Url'')) - {None}"
    by (simp add: c1 image_image)
  have c5: "distinct (map (\<lambda>q. url (snd q)) res)"
    by (rule distinct_transform_urls [OF assms(2)])
  from c1 c2 c3 c4 c5 show ?thesis by (intro conjI)
qed

theorem rows_without_url_dropped_witness:
  "normalize_columns exact_ops example_table = Inr example_norm \<and>
   transform_cars exact_ops example_table = Inr example_out \<and>
   map (\<lambda>q. url (snd q)) example_norm = map (clean_text exact_ops) (safe_get example_table ''Url'') \<and>
   list_all (\<lambda>c. url (snd c) \<noteq> None) example_out \<and>
   snd ` set example_out \<subseteq> {c \<in> with_price exact_ops ` snd ` set example_norm. url c \<noteq> None} \<and>
   (\<lambda>q. url (snd q)) ` set example_out =
     set (map (clean_text exact_ops) (safe_get example_table ''Url'')) - {None} \<and>
   distinct (map (\<lambda>q. url (snd q)) example_out)"
proof -
  have a: "normalize_columns exact_ops example_table = Inr example_norm"
    by code_simp
  have b: "transform_cars exact_ops example_table = Inr example_out"
    by code_simp
  note c = rows_without_url_dropped [OF a b]
  note c1 = c [THEN conjunct1]
  note c2 = c [THEN conjunct2, THEN conjunct1]
  note c3 = c [THEN conjunct2, THEN conjunct2]
  have c2': "list_all (\<lambda>c. url (snd c) \<noteq> None) example_out"
    by (rule list_all_iff [THEN iffD2]) (rule c2)
  show ?thesis
    by (rule conjI [OF a conjI [OF b conjI [OF c1 conjI [OF c2' c3]]]])
qed

subsection \<open>Numeric coercion\<close>

text \<open>
  The cast to Int64 at the edges of the range: an integer just below \<open>-2^63\<close> goes
  through its float, a cell of the uint64 range above \<open>2^63-1\<close> raises TypeError, a finite
  float that is no whole number raises TypeError, and with an infinity the exception is
  the one the library picks.
\<close>

lemma int_below_int64_is_cast_as_float:
  assumes "\<not> isnan F (float_of_int F (- (2 ^ 63) - 1))"
    and "exact_int64 F (float_of_int F (- (2 ^ 63) - 1)) = Some j"
  shows "numeric_column F [PyInt (- (2 ^ 63) - 1)] = Inr [Some j]"
  using assms
  by (simp add: numeric_column_def to_numeric_def to_numeric_cell_def is_int_def the_int_def
      fits_float_def in_int64_def in_uint64_def astype_Int64_def bind_def Let_def)

lemma uint64_cell_raises:
  "numeric_column F [PyInt (2 ^ 63)] = Inl TypeError"
  by (simp add: numeric_column_def to_numeric_def to_numeric_cell_def is_int_def the_int_def
      fits_float_def in_int64_def in_uint64_def astype_Int64_def bind_def Let_def)

lemma infinite_cell_raises:
  assumes "isinf F x" and "\<not> isnan F x" and "exact_int64 F x = None"
  shows "numeric_column F [PyFloat x] = Inl (inf_cast_error F [x])"
  using assms
  by (simp add: numeric_column_def to_numeric_def to_numeric_cell_def is_int_def the_int_def
      fits_float_def as_float_def astype_Int64_def bind_def Let_def)

lemma finite_cell_raises_TypeError:
  assumes "\<not> isinf F x" and "\<not> isnan F x" and "exact_int64 F x = None"
  shows "numeric_column F [PyFloat x] = Inl TypeError"
  using assms
  by (simp add: numeric_column_def to_numeric_def to_numeric_cell_def is_int_def the_int_def
      fits_float_def as_float_def astype_Int64_def bind_def Let_def)

text \<open>
  Claim C7. A price cell holding the number 199999.5 parses as a number but is no
  integer: the cast to Int64 raises TypeError and \<open>transform_cars\<close> aborts, where the claim
  has the field become missing.
\<close>

theorem fractional_cell_raises: "transform_cars exact_ops fractional_table = Inl TypeError"
  by code_simp

section \<open>Properties of the load\<close>

lemma none_or_missing: "is_missing F v \<Longrightarrow> none_or F cast v = Inr None"
  by (auto simp: is_missing_def none_or_def pd_isna_def split: pyval.splits)

lemma convert_one_fields:
  assumes "convert_one F now r = Inr t"
  shows "9 \<le> length r"
    and "none_or F (py_str F) (r ! 0) = Inr (db_url t)"
    and "none_or F (py_str F) (r ! 1) = Inr (db_regnr t)"
    and "none_or F (py_int F) (r ! 2) = Inr (db_model_year t)"
    and "none_or F (py_int F) (r ! 3) = Inr (db_price_sek t)"
    and "none_or F (py_int F) (r ! 4) = Inr (db_odometer_km t)"
    and "none_or F (py_str F) (r ! 5) = Inr (db_fuel t)"
    and "none_or F (py_str F) (r ! 6) = Inr (db_body_type t)"
    and "none_or F (py_int F) (r ! 7) = Inr (db_horsepower t)"
    and "none_or F (py_float F) (r ! 8) = Inr (db_price_per_1000km t)"
    and "db_load_ts t = now"
  using assms
  by (auto simp: convert_one_def bind_Inr_iff item_def split: if_splits)

lemma convert_rows_nth:
  "convert_rows F now rs = Inr ts \<Longrightarrow>
   length ts = length rs \<and> (\<forall>j < length rs. convert_one F now (rs ! j) = Inr (ts ! j))"
proof (induction rs arbitrary: ts)
  case Nil
  then show ?case by simp
next
  case (Cons r rs)
  from Cons.prems obtain t ts' where t: "convert_one F now r = Inr t"
    and ts': "convert_rows F now rs = Inr ts'" and ts: "ts = t # ts'"
    by (auto simp: bind_Inr_iff)
  from Cons.IH [OF ts'] t ts show ?case
    by (auto simp: nth_Cons split: nat.splits)
qed

lemma convert_rows_load_ts:
  "convert_rows F now rs = Inr ts \<Longrightarrow> \<forall>t \<in> set ts. db_load_ts t = now"
proof (induction rs arbitrary: ts)
  case Nil
  then show ?case by simp
next
  case (Cons r rs)
  from Cons.prems obtain t ts' where t: "convert_one F now r = Inr t"
    and ts': "convert_rows F now rs = Inr ts'" and ts: "ts = t # ts'"
    by (auto simp: bind_Inr_iff)
  from Cons.IH [OF ts'] convert_one_fields(11) [OF t] ts show ?case by simp
qed

lemma bind_params_fields:
  assumes "bind_params F t = Inr t'"
  shows "db_url t' = db_url t" "db_regnr t' = db_regnr t" "db_model_year t' = db_model_year t"
    "db_price_sek t' = db_price_sek t" "db_odometer_km t' = db_odometer_km t" "db_fuel t' = db_fuel t"
    "db_body_type t' = db_body_type t" "db_horsepower t' = db_horsepower t"
    "db_price_per_1000km t' = real_param F (db_price_per_1000km t)" "db_load_ts t' = db_load_ts t"
  using assms
  by (auto simp: bind_params_def bind_Inr_iff int_param_def split: option.splits if_splits)

lemma fact_cars_execute: "fact_cars (snd (execute F c t)) = fact_cars c"
  by (simp add: execute_def split: option.splits sum.splits)

lemma fact_cars_executemany: "fact_cars (snd (executemany F c ts)) = fact_cars c"
proof (induction ts arbitrary: c)
  case Nil
  then show ?case by simp
next
  case (Cons t ts)
  obtain r c' where ex: "execute F c t = (r, c')" by (cases "execute F c t")
  then have fc: "fact_cars c' = fact_cars c" using fact_cars_execute [of F c t] by simp
  show ?case
  proof (cases r)
    case (Inl e)
    with ex fc show ?thesis by simp
  next
    case (Inr u)
    with ex fc Cons.IH [of c'] show ?thesis by simp
  qed
qed

lemma execute_Inr:
  assumes "working c = Some tbl" and "UPSERT_SQL F tbl t = Inr tbl'"
  shows "execute F c t = (Inr (), c\<lparr>txn := Some tbl', executed := Suc (executed c)\<rparr>)"
  using assms by (simp add: execute_def working_def)

lemma execute_Inl:
  assumes "working c = Some tbl" and "UPSERT_SQL F tbl t = Inl e"
  shows "execute F c t = (Inl e, c\<lparr>txn := Some tbl, executed := Suc (executed c)\<rparr>)"
  using assms by (simp add: execute_def working_def)

lemma executemany_Inr:
  assumes "working c = Some tbl" and "upsert_all F tbl ts = Inr tbl'"
  shows "\<exists>c'. executemany F c ts = (Inr (), c') \<and> working c' = Some tbl' \<and> fact_cars c' = fact_cars c"
  using assms
proof (induction ts arbitrary: c tbl)
  case Nil
  then show ?case by simp
next
  case (Cons t ts)
  from Cons.prems(2) obtain tbl1 where step: "UPSERT_SQL F tbl t = Inr tbl1"
    and rest: "upsert_all F tbl1 ts = Inr tbl'"
    by (auto simp: bind_Inr_iff)
  let ?c1 = "c\<lparr>txn := Some tbl1, executed := Suc (executed c)\<rparr>"
  have ex: "execute F c t = (Inr (), ?c1)"
    by (rule execute_Inr [OF Cons.prems(1) step])
  have w1: "working ?c1 = Some tbl1" by (simp add: working_def)
  from Cons.IH [OF w1 rest] obtain c' where
    "executemany F ?c1 ts = (Inr (), c')" "working c' = Some tbl'" "fact_cars c' = fact_cars ?c1"
    by blast
  with ex show ?case by simp
qed

lemma executemany_Inl:
  assumes "working c = Some tbl" and "upsert_all F tbl ts = Inl e"
  shows "\<exists>c'. executemany F c ts = (Inl e, c') \<and> fact_cars c' = fact_cars c"
  using assms
proof (induction ts arbitrary: c tbl)
  case Nil
  then show ?case by simp
next
  case (Cons t ts)
  show ?case
  proof (cases "UPSERT_SQL F tbl t")
    case (Inl e')
    with Cons.prems(2) have "e' = e" by (simp add: bind_def)
    with execute_Inl [OF Cons.prems(1) Inl] show ?thesis by simp
  next
    case (Inr tbl1)
    with Cons.prems(2) have rest: "upsert_all F tbl1 ts = Inl e" by (simp add: bind_def)
    let ?c1 = "c\<lparr>txn := Some tbl1, executed := Suc (executed c)\<rparr>"
    have ex: "execute F c t = (Inr (), ?c1)"
      by (rule execute_Inr [OF Cons.prems(1) Inr])
    have w1: "working ?c1 = Some tbl1" by (simp add: working_def)
    from Cons.IH [OF w1 rest] obtain c' where
      "executemany F ?c1 ts = (Inl e, c')" "fact_cars c' = fact_cars ?c1"
      by blast
    with ex show ?thesis by simp
  qed
qed

lemma upsert_cars_Inr:
  assumes "txn c = None" and "fact_cars c = Some tbl" and "upsert_all F tbl ts = Inr tbl'"
  shows "\<exists>c'. upsert_cars F c ts = (Inr (length ts), c') \<and> fact_cars c' = Some tbl' \<and> txn c' = None"
proof (cases ts)
  case Nil
  with assms show ?thesis by (simp add: upsert_cars_def)
next
  case (Cons t ts')
  from assms(1,2) have w: "working c = Some tbl" by (simp add: working_def)
  from executemany_Inr [OF w assms(3)] obtain c1 where
    c1: "executemany F c ts = (Inr (), c1)" "working c1 = Some tbl'" "fact_cars c1 = fact_cars c"
    by blast
  from c1(2) assms(2) c1(3) have "fact_cars (commit c1) = Some tbl'" "txn (commit c1) = None"
    by (auto simp: working_def commit_def split: option.splits)
  with c1(1) Cons show ?thesis by (simp add: upsert_cars_def)
qed

lemma upsert_cars_Inl:
  assumes "txn c = None" and "fact_cars c = Some tbl" and "upsert_all F tbl ts = Inl e"
  shows "\<exists>c'. upsert_cars F c ts = (Inl e, c') \<and> fact_cars c' = Some tbl \<and> txn c' = None"
proof -
  from assms(3) have ne: "ts \<noteq> []" by auto
  from assms(1,2) have w: "working c = Some tbl" by (simp add: working_def)
  from executemany_Inl [OF w assms(3)] obtain c1 where
    c1: "executemany F c ts = (Inl e, c1)" "fact_cars c1 = fact_cars c"
    by blast
  with ne assms(2) show ?thesis by (simp add: upsert_cars_def rollback_def)
qed

lemma upsert_cars_count:
  assumes "upsert_cars F c ts = (Inr n, c')"
  shows "n = length ts"
proof (cases ts)
  case Nil
  with assms show ?thesis by (simp add: upsert_cars_def)
next
  case (Cons t ts')
  obtain r c1 where ex: "executemany F c ts = (r, c1)" by (cases "executemany F c ts")
  with assms Cons show ?thesis
    by (cases r) (auto simp: upsert_cars_def)
qed

lemma load_cars_empty:
  "load_cars F db clk [] =
     (Inr 0, (case db of None \<Rightarrow> Some [] | Some t \<Rightarrow> Some t), clk\<lparr>reads := Suc (reads clk)\<rparr>)"
  by (simp add: load_cars_def convert_row_for_db_def utcnow_isoformat_def upsert_cars_def
      init_schema_def get_conn_def commit_def close_def rollback_def Let_def split: option.splits)

lemma upsert_cars_single:
  assumes "txn c = None" and "fact_cars c = Some tbl" and "upsert_cars F c [t] = (Inr n, c')"
  shows "\<exists>tbl'. UPSERT_SQL F tbl t = Inr tbl' \<and> fact_cars c' = Some tbl'"
proof (cases "UPSERT_SQL F tbl t")
  case (Inl e)
  then have "upsert_all F tbl [t] = Inl e" by (simp add: bind_def)
  from upsert_cars_Inl [OF assms(1,2) this] assms(3) show ?thesis by auto
next
  case (Inr tbl')
  then have "upsert_all F tbl [t] = Inr tbl'" by (simp add: bind_def)
  from upsert_cars_Inr [OF assms(1,2) this] assms(3) Inr show ?thesis by auto
qed

lemma UPSERT_SQL_update:
  assumes "UPSERT_SQL F tbl t = Inr tbl'" and "db_url t = Some u"
    and "list_ex (\<lambda>s. db_url s = Some u) tbl"
  shows "\<exists>t'. bind_params F t = Inr t' \<and>
           tbl' = map (\<lambda>s. if db_url s = Some u then do_update t' s else s) tbl"
proof -
  from assms(1) obtain t' where t': "bind_params F t = Inr t'"
    by (auto simp: UPSERT_SQL_def bind_Inr_iff)
  from bind_params_fields(1) [OF t'] assms(2) have u: "db_url t' = Some u" by simp
  then have c: "\<And>s. conflicts (db_url t') (db_url s) = (db_url s = Some u)"
    by (auto simp: conflicts_def)
  from assms(1,3) t' have "tbl' = map (\<lambda>s. if db_url s = Some u then do_update t' s else s) tbl"
    by (simp add: UPSERT_SQL_def bind_Inr c split: if_splits)
  with t' show ?thesis by blast
qed

lemma do_update_same: "db_url s = db_url t \<Longrightarrow> do_update t s = t"
  by (cases s, cases t) (simp add: do_update_def)

lemma conflicts_url: "a \<noteq> None \<Longrightarrow> conflicts a b = (b = a)"
  by (auto simp: conflicts_def)

lemma conflicts_sym: "conflicts a b = conflicts b a"
  by (auto simp: conflicts_def)

lemma UPSERT_SQL_cases:
  assumes "UPSERT_SQL F tbl t = Inr tbl'"
  obtains (update) t' where "bind_params F t = Inr t'" "check_constraints F t'"
      "\<exists>s \<in> set tbl. conflicts (db_url t) (db_url s)"
      "\<forall>s \<in> set tbl. \<not> conflicts (db_url t) (db_url s) \<longrightarrow> \<not> conflicts (db_regnr t) (db_regnr s)"
      "tbl' = map (\<lambda>s. if conflicts (db_url t) (db_url s) then do_update t' s else s) tbl"
  | (insert) t' where "bind_params F t = Inr t'" "check_constraints F t'"
      "\<forall>s \<in> set tbl. \<not> conflicts (db_url t) (db_url s)"
      "\<forall>s \<in> set tbl. \<not> conflicts (db_regnr t) (db_regnr s)"
      "tbl' = tbl @ [t']"
proof -
  from assms obtain t' where t': "bind_params F t = Inr t'"
    by (auto simp: UPSERT_SQL_def bind_Inr_iff)
  note f = bind_params_fields [OF t']
  show thesis
  proof (cases "list_ex (\<lambda>s. conflicts (db_url t') (db_url s)) tbl")
    case True
    with assms t' show thesis
      by (intro update [of t']) (auto simp: UPSERT_SQL_def bind_Inr f list_ex_iff split: if_splits)
  next
    case False
    with assms t' show thesis
      by (intro insert [of t']) (auto simp: UPSERT_SQL_def bind_Inr f list_ex_iff split: if_splits)
  qed
qed

lemma settledI:
  assumes "bind_params F t = Inr t'" and "check_constraints F t'" and "db_url t \<noteq> None"
    and "\<exists>s \<in> set tbl. db_url s = db_url t"
    and "\<forall>s \<in> set tbl. db_url s = db_url t \<longrightarrow> s = t'"
    and "\<forall>s \<in> set tbl. db_url s \<noteq> db_url t \<longrightarrow> \<not> conflicts (db_regnr t) (db_regnr s)"
  shows "settled F tbl t"
  using assms by (simp add: settled_def)

lemma settledE:
  assumes "settled F tbl t"
  obtains t' where "bind_params F t = Inr t'" and "check_constraints F t'" and "db_url t \<noteq> None"
    and "\<exists>s \<in> set tbl. db_url s = db_url t"
    and "\<forall>s \<in> set tbl. db_url s = db_url t \<longrightarrow> s = t'"
    and "\<forall>s \<in> set tbl. db_url s \<noteq> db_url t \<longrightarrow> \<not> conflicts (db_regnr t) (db_regnr s)"
proof (cases "bind_params F t")
  case (Inl e)
  with assms show ?thesis by (simp add: settled_def)
next
  case (Inr t')
  with assms that [of t'] show ?thesis by (simp add: settled_def)
qed

lemma UPSERT_SQL_settles:
  assumes "UPSERT_SQL F tbl t = Inr tbl'" and "db_url t \<noteq> None"
  shows "settled F tbl' t"
  using assms(1)
proof (cases rule: UPSERT_SQL_cases)
  case (update t')
  note f = bind_params_fields [OF update(1)]
  have c: "\<And>s. conflicts (db_url t) (db_url s) = (db_url s = db_url t)"
    using assms(2) by (rule conflicts_url)
  have same: "\<And>s. db_url s = db_url t \<Longrightarrow> do_update t' s = t'"
    by (rule do_update_same) (simp add: f)
  define g where "g = (\<lambda>s. if db_url s = db_url t then t' else s)"
  have tbl': "tbl' = map g tbl"
    unfolding update(5) g_def c by (rule map_cong) (simp_all add: same)
  have g_url: "\<And>s. db_url (g s) = db_url s" by (simp add: g_def f)
  from update(3) obtain s0 where s0: "s0 \<in> set tbl" "db_url s0 = db_url t" unfolding c by blast
  have e1: "\<exists>s \<in> set tbl'. db_url s = db_url t"
  proof
    show "g s0 \<in> set tbl'" using s0(1) by (simp add: tbl')
    show "db_url (g s0) = db_url t" using s0(2) by (simp add: g_url)
  qed
  have e2: "\<forall>s \<in> set tbl'. db_url s = db_url t \<longrightarrow> s = t'"
  proof (intro ballI impI)
    fix s' assume "s' \<in> set tbl'" and u: "db_url s' = db_url t"
    then obtain s where s: "s \<in> set tbl" "s' = g s" by (auto simp: tbl')
    with u have "db_url s = db_url t" by (simp add: g_url)
    with s(2) show "s' = t'" by (simp add: g_def)
  qed
  have e3: "\<forall>s \<in> set tbl'. db_url s \<noteq> db_url t \<longrightarrow> \<not> conflicts (db_regnr t) (db_regnr s)"
  proof (intro ballI impI)
    fix s' assume "s' \<in> set tbl'" and u: "db_url s' \<noteq> db_url t"
    then obtain s where s: "s \<in> set tbl" "s' = g s" by (auto simp: tbl')
    with u have ne: "db_url s \<noteq> db_url t" by (simp add: g_url)
    with s(2) have "s' = s" by (simp add: g_def)
    moreover from update(4) s(1) ne have "\<not> conflicts (db_regnr t) (db_regnr s)"
      unfolding c by blast
    ultimately show "\<not> conflicts (db_regnr t) (db_regnr s')" by simp
  qed
  show ?thesis by (rule settledI [OF update(1,2) assms(2) e1 e2 e3])
next
  case (insert t')
  note f = bind_params_fields [OF insert(1)]
  have c: "\<And>s. conflicts (db_url t) (db_url s) = (db_url s = db_url t)"
    using assms(2) by (rule conflicts_url)
  from insert(3) have none: "\<forall>s \<in> set tbl. db_url s \<noteq> db_url t" unfolding c .
  have e1: "\<exists>s \<in> set tbl'. db_url s = db_url t"
  proof
    show "t' \<in> set tbl'" by (simp add: insert(5))
    show "db_url t' = db_url t" by (simp add: f)
  qed
  have e2: "\<forall>s \<in> set tbl'. db_url s = db_url t \<longrightarrow> s = t'"
  proof (intro ballI impI)
    fix s assume "s \<in> set tbl'" and u: "db_url s = db_url t"
    then have "s \<in> set tbl \<union> {t'}" by (simp only: insert(5) set_append list.set)
    then have "s \<in> set tbl \<or> s = t'" by blast
    with none u show "s = t'" by blast
  qed
  have e3: "\<forall>s \<in> set tbl'. db_url s \<noteq> db_url t \<longrightarrow> \<not> conflicts (db_regnr t) (db_regnr s)"
  proof (intro ballI impI)
    fix s assume "s \<in> set tbl'" and u: "db_url s \<noteq> db_url t"
    then have "s \<in> set tbl \<union> {t'}" by (simp only: insert(5) set_append list.set)
    then have "s \<in> set tbl \<or> s = t'" by blast
    moreover from u f(1) have "s \<noteq> t'" by metis
    ultimately have "s \<in> set tbl" by blast
    with insert(4) show "\<not> conflicts (db_regnr t) (db_regnr s)" by blast
  qed
  show ?thesis by (rule settledI [OF insert(1,2) assms(2) e1 e2 e3])
qed

lemma UPSERT_SQL_keeps_settled:
  assumes "settled F tbl t" and "UPSERT_SQL F tbl t2 = Inr tbl2" and "db_url t2 \<noteq> db_url t"
  shows "settled F tbl2 t"
proof -
  from assms(1) obtain t' where t': "bind_params F t = Inr t'"
    and chk: "check_constraints F t'" and u: "db_url t \<noteq> None"
    and ex: "\<exists>s \<in> set tbl. db_url s = db_url t"
    and eq: "\<forall>s \<in> set tbl. db_url s = db_url t \<longrightarrow> s = t'"
    and others: "\<forall>s \<in> set tbl. db_url s \<noteq> db_url t \<longrightarrow> \<not> conflicts (db_regnr t) (db_regnr s)"
    by (rule settledE)
  note f = bind_params_fields [OF t']
  from ex obtain s0 where s0: "s0 \<in> set tbl" "db_url s0 = db_url t" by blast
  with eq have "s0 = t'" by blast
  then have r0: "db_regnr s0 = db_regnr t" by (simp add: f)
  from assms(3) s0(2) have nc: "\<not> conflicts (db_url t2) (db_url s0)"
    by (simp add: conflicts_def)
  from assms(2) show ?thesis
  proof (cases rule: UPSERT_SQL_cases)
    case (update t2')
    note f2 = bind_params_fields [OF update(1)]
    from update(4) s0(1) nc have "\<not> conflicts (db_regnr t2) (db_regnr s0)" by blast
    then have nr: "\<not> conflicts (db_regnr t) (db_regnr t2')"
      using r0 by (simp add: conflicts_sym f2)
    define g where "g = (\<lambda>s. if conflicts (db_url t2) (db_url s) then do_update t2' s else s)"
    have tbl2: "tbl2 = map g tbl" by (simp add: update(5) g_def)
    have g_url: "\<And>s. db_url (g s) = db_url s" by (simp add: g_def do_update_def)
    have g_keep: "\<And>s. db_url s = db_url t \<Longrightarrow> g s = s"
      using assms(3) by (simp add: g_def conflicts_def)
    have g_regnr: "\<And>s. db_regnr (g s) = db_regnr s \<or> db_regnr (g s) = db_regnr t2'"
      by (simp add: g_def do_update_def)
    have e1: "\<exists>s \<in> set tbl2. db_url s = db_url t"
    proof
      show "g s0 \<in> set tbl2" using s0(1) by (simp add: tbl2)
      show "db_url (g s0) = db_url t" using s0(2) by (simp add: g_url)
    qed
    have e2: "\<forall>s \<in> set tbl2. db_url s = db_url t \<longrightarrow> s = t'"
    proof (intro ballI impI)
      fix s' assume "s' \<in> set tbl2" and us: "db_url s' = db_url t"
      then obtain s where s: "s \<in> set tbl" "s' = g s" by (auto simp: tbl2)
      with us have su: "db_url s = db_url t" by (simp add: g_url)
      with eq s(1) have "s = t'" by blast
      moreover from g_keep [OF su] s(2) have "s' = s" by simp
      ultimately show "s' = t'" by simp
    qed
    have e3: "\<forall>s \<in> set tbl2. db_url s \<noteq> db_url t \<longrightarrow> \<not> conflicts (db_regnr t) (db_regnr s)"
    proof (intro ballI impI)
      fix s' assume "s' \<in> set tbl2" and us: "db_url s' \<noteq> db_url t"
      then obtain s where s: "s \<in> set tbl" "s' = g s" by (auto simp: tbl2)
      with us have "db_url s \<noteq> db_url t" by (simp add: g_url)
      with others s(1) have a: "\<not> conflicts (db_regnr t) (db_regnr s)" by blast
      from g_regnr [of s] s(2) have "db_regnr s' = db_regnr s \<or> db_regnr s' = db_regnr t2'" by simp
      with a nr show "\<not> conflicts (db_regnr t) (db_regnr s')" by metis
    qed
    show ?thesis by (rule settledI [OF t' chk u e1 e2 e3])
  next
    case (insert t2')
    note f2 = bind_params_fields [OF insert(1)]
    from insert(4) s0(1) have "\<not> conflicts (db_regnr t2) (db_regnr s0)" by blast
    then have nr: "\<not> conflicts (db_regnr t) (db_regnr t2')"
      using r0 by (simp add: conflicts_sym f2)
    have ne: "db_url t2' \<noteq> db_url t" using assms(3) by (simp add: f2)
    have mem: "\<And>s. s \<in> set tbl2 \<Longrightarrow> s \<in> set tbl \<or> s = t2'"
    proof -
      fix s assume "s \<in> set tbl2"
      then have "s \<in> set tbl \<union> {t2'}" by (simp only: insert(5) set_append list.set)
      then show "s \<in> set tbl \<or> s = t2'" by blast
    qed
    have e1: "\<exists>s \<in> set tbl2. db_url s = db_url t"
    proof
      show "s0 \<in> set tbl2" using s0(1) by (simp add: insert(5))
      show "db_url s0 = db_url t" by (rule s0(2))
    qed
    have e2: "\<forall>s \<in> set tbl2. db_url s = db_url t \<longrightarrow> s = t'"
    proof (intro ballI impI)
      fix s assume "s \<in> set tbl2" and us: "db_url s = db_url t"
      from mem [OF this(1)] us ne have "s \<in> set tbl" by metis
      with eq us show "s = t'" by blast
    qed
    have e3: "\<forall>s \<in> set tbl2. db_url s \<noteq> db_url t \<longrightarrow> \<not> conflicts (db_regnr t) (db_regnr s)"
    proof (intro ballI impI)
      fix s assume "s \<in> set tbl2" and us: "db_url s \<noteq> db_url t"
      from mem [OF this(1)] show "\<not> conflicts (db_regnr t) (db_regnr s)"
      proof
        assume "s \<in> set tbl"
        with others us show ?thesis by blast
      next
        assume "s = t2'"
        with nr show ?thesis by simp
      qed
    qed
    show ?thesis by (rule settledI [OF t' chk u e1 e2 e3])
  qed
qed

lemma upsert_all_keeps_settled:
  assumes "settled F tbl t" and "upsert_all F tbl ts = Inr tbl'" and "db_url t \<notin> set (map db_url ts)"
  shows "settled F tbl' t"
  using assms
proof (induction ts arbitrary: tbl)
  case Nil
  then show ?case by simp
next
  case (Cons t2 ts)
  from Cons.prems(2) obtain tbl1 where step: "UPSERT_SQL F tbl t2 = Inr tbl1"
    and rest: "upsert_all F tbl1 ts = Inr tbl'"
    by (auto simp: bind_Inr_iff)
  from Cons.prems(3) have ne: "db_url t2 \<noteq> db_url t" and notin: "db_url t \<notin> set (map db_url ts)"
    by auto
  from UPSERT_SQL_keeps_settled [OF Cons.prems(1) step ne] have "settled F tbl1 t" .
  from Cons.IH [OF this rest notin] show ?case .
qed

lemma upsert_all_settles:
  assumes "upsert_all F tbl ts = Inr tbl'" and "distinct (map db_url ts)" and "None \<notin> set (map db_url ts)"
  shows "\<forall>t \<in> set ts. settled F tbl' t"
  using assms
proof (induction ts arbitrary: tbl)
  case Nil
  then show ?case by simp
next
  case (Cons t ts)
  from Cons.prems(1) obtain tbl1 where step: "UPSERT_SQL F tbl t = Inr tbl1"
    and rest: "upsert_all F tbl1 ts = Inr tbl'"
    by (auto simp: bind_Inr_iff)
  from Cons.prems(2,3) have u: "db_url t \<noteq> None" and notin: "db_url t \<notin> set (map db_url ts)"
    and d: "distinct (map db_url ts)" and n: "None \<notin> set (map db_url ts)"
    by auto
  from UPSERT_SQL_settles [OF step u] have "settled F tbl1 t" .
  from upsert_all_keeps_settled [OF this rest notin] have "settled F tbl' t" .
  with Cons.IH [OF rest d n] show ?case by simp
qed

lemma bind_params_load_ts:
  "bind_params F t = Inr t' \<Longrightarrow> bind_params F (t\<lparr>db_load_ts := now\<rparr>) = Inr (t'\<lparr>db_load_ts := now\<rparr>)"
  by (auto simp: bind_params_def bind_Inr_iff)

lemma check_constraints_load_ts: "check_constraints F (t\<lparr>db_load_ts := now\<rparr>) = check_constraints F t"
  by (simp add: check_constraints_def)

lemma do_update_load_ts: "do_update (t\<lparr>db_load_ts := now\<rparr>) t = t\<lparr>db_load_ts := now\<rparr>"
  by (cases t) (simp add: do_update_def)

lemma UPSERT_SQL_restamp:
  assumes "settled F tbl t"
  shows "UPSERT_SQL F tbl (t\<lparr>db_load_ts := now\<rparr>) = Inr (restamp now [db_url t] tbl)"
proof -
  from assms obtain t' where t': "bind_params F t = Inr t'"
    and chk: "check_constraints F t'" and u: "db_url t \<noteq> None"
    and ex: "\<exists>s \<in> set tbl. db_url s = db_url t"
    and eq: "\<forall>s \<in> set tbl. db_url s = db_url t \<longrightarrow> s = t'"
    and others: "\<forall>s \<in> set tbl. db_url s \<noteq> db_url t \<longrightarrow> \<not> conflicts (db_regnr t) (db_regnr s)"
    by (rule settledE)
  note f = bind_params_fields [OF t']
  let ?t2 = "t'\<lparr>db_load_ts := now\<rparr>"
  have b: "bind_params F (t\<lparr>db_load_ts := now\<rparr>) = Inr ?t2"
    by (rule bind_params_load_ts [OF t'])
  have c: "\<And>s. conflicts (db_url ?t2) (db_url s) = (db_url s = db_url t)"
    using u by (simp add: conflicts_url f)
  have ex': "list_ex (\<lambda>s. db_url s = db_url t) tbl"
    using ex by (simp add: list_ex_iff)
  have r2: "db_regnr ?t2 = db_regnr t" by (simp add: f)
  have no: "\<not> list_ex (\<lambda>s. db_url s \<noteq> db_url t \<and> conflicts (db_regnr ?t2) (db_regnr s)) tbl"
    unfolding list_ex_iff r2 using others by blast
  have m: "map (\<lambda>s. if db_url s = db_url t then do_update ?t2 s else s) tbl = restamp now [db_url t] tbl"
    unfolding restamp_def
  proof (rule map_cong [OF refl])
    fix s assume s: "s \<in> set tbl"
    show "(if db_url s = db_url t then do_update ?t2 s else s) =
          (if db_url s \<in> set [db_url t] then s\<lparr>db_load_ts := now\<rparr> else s)"
    proof (cases "db_url s = db_url t")
      case True
      with eq s have "s = t'" by blast
      with True show ?thesis by (simp add: do_update_load_ts)
    next
      case False
      then show ?thesis by simp
    qed
  qed
  show ?thesis
    unfolding UPSERT_SQL_def b bind_Inr
    by (simp only: check_constraints_load_ts chk c ex' no m if_True if_False not_True_eq_False not_not)
qed

lemma settled_restamp:
  assumes "settled F tbl t" and "db_url t \<notin> set urls"
  shows "settled F (restamp now urls tbl) t"
proof -
  from assms(1) obtain t' where t': "bind_params F t = Inr t'"
    and chk: "check_constraints F t'" and u: "db_url t \<noteq> None"
    and ex: "\<exists>s \<in> set tbl. db_url s = db_url t"
    and eq: "\<forall>s \<in> set tbl. db_url s = db_url t \<longrightarrow> s = t'"
    and others: "\<forall>s \<in> set tbl. db_url s \<noteq> db_url t \<longrightarrow> \<not> conflicts (db_regnr t) (db_regnr s)"
    by (rule settledE)
  define g :: "'a db_row \<Rightarrow> 'a db_row"
    where "g = (\<lambda>s. if db_url s \<in> set urls then s\<lparr>db_load_ts := now\<rparr> else s)"
  have r: "restamp now urls tbl = map g tbl" by (simp add: restamp_def g_def)
  have g_url: "\<And>s. db_url (g s) = db_url s" by (simp add: g_def)
  have g_regnr: "\<And>s. db_regnr (g s) = db_regnr s" by (simp add: g_def)
  have g_keep: "\<And>s. db_url s = db_url t \<Longrightarrow> g s = s" using assms(2) by (simp add: g_def)
  from ex obtain s0 where s0: "s0 \<in> set tbl" "db_url s0 = db_url t" by blast
  have e1: "\<exists>s \<in> set (map g tbl). db_url s = db_url t"
  proof
    show "g s0 \<in> set (map g tbl)" using s0(1) by simp
    show "db_url (g s0) = db_url t" using s0(2) by (simp add: g_url)
  qed
  have e2: "\<forall>s \<in> set (map g tbl). db_url s = db_url t \<longrightarrow> s = t'"
  proof (intro ballI impI)
    fix s' assume "s' \<in> set (map g tbl)" and us: "db_url s' = db_url t"
    then obtain s where s: "s \<in> set tbl" "s' = g s" by auto
    with us have su: "db_url s = db_url t" by (simp add: g_url)
    with eq s(1) have "s = t'" by blast
    moreover from g_keep [OF su] s(2) have "s' = s" by simp
    ultimately show "s' = t'" by simp
  qed
  have e3: "\<forall>s \<in> set (map g tbl). db_url s \<noteq> db_url t \<longrightarrow> \<not> conflicts (db_regnr t) (db_regnr s)"
  proof (intro ballI impI)
    fix s' assume "s' \<in> set (map g tbl)" and us: "db_url s' \<noteq> db_url t"
    then obtain s where s: "s \<in> set tbl" "s' = g s" by auto
    with us have "db_url s \<noteq> db_url t" by (simp add: g_url)
    with others s(1) have "\<not> conflicts (db_regnr t) (db_regnr s)" by blast
    with s(2) show "\<not> conflicts (db_regnr t) (db_regnr s')" by (simp add: g_regnr)
  qed
  show ?thesis unfolding r by (rule settledI [OF t' chk u e1 e2 e3])
qed

lemma restamp_restamp: "restamp now urls (restamp now [u] tbl) = restamp now (u # urls) tbl"
  by (simp add: restamp_def)

lemma upsert_all_restamp:
  assumes "\<forall>t \<in> set ts. settled F tbl t" and "distinct (map db_url ts)"
  shows "upsert_all F tbl (map (\<lambda>t. t\<lparr>db_load_ts := now\<rparr>) ts) = Inr (restamp now (map db_url ts) tbl)"
  using assms
proof (induction ts arbitrary: tbl)
  case Nil
  then show ?case by (simp add: restamp_def)
next
  case (Cons t ts)
  from Cons.prems(1) have st: "settled F tbl t" by simp
  have step: "UPSERT_SQL F tbl (t\<lparr>db_load_ts := now\<rparr>) = Inr (restamp now [db_url t] tbl)"
    by (rule UPSERT_SQL_restamp [OF st])
  have rest: "\<forall>t2 \<in> set ts. settled F (restamp now [db_url t] tbl) t2"
  proof
    fix t2 assume t2: "t2 \<in> set ts"
    with Cons.prems(1) have s2: "settled F tbl t2" by simp
    from Cons.prems(2) have "db_url t \<notin> db_url ` set ts" by simp
    with t2 have "db_url t2 \<noteq> db_url t" by (metis imageI)
    then have "db_url t2 \<notin> set [db_url t]" by simp
    from settled_restamp [OF s2 this] show "settled F (restamp now [db_url t] tbl) t2" .
  qed
  from Cons.prems(2) have d: "distinct (map db_url ts)" by simp
  from Cons.IH [OF rest d] step show ?case
    by (simp add: bind_Inr restamp_restamp)
qed

lemma convert_one_now:
  "convert_one F now r = Inr t \<Longrightarrow> convert_one F now2 r = Inr (t\<lparr>db_load_ts := now2\<rparr>)"
  by (auto simp: convert_one_def bind_Inr_iff)

lemma convert_rows_now:
  "convert_rows F now rs = Inr ts \<Longrightarrow>
   convert_rows F now2 rs = Inr (map (\<lambda>t. t\<lparr>db_load_ts := now2\<rparr>) ts)"
proof (induction rs arbitrary: ts)
  case Nil
  then show ?case by simp
next
  case (Cons r rs)
  from Cons.prems obtain t ts' where t: "convert_one F now r = Inr t"
    and ts': "convert_rows F now rs = Inr ts'" and ts: "ts = t # ts'"
    by (auto simp: bind_Inr_iff)
  from Cons.IH [OF ts'] convert_one_now [OF t] ts show ?case
    by (simp add: bind_Inr)
qed

lemma init_schema_get_conn:
  "txn (init_schema (get_conn db)) = None"
  "fact_cars (init_schema (get_conn db)) = Some (table_of db)"
  by (simp_all add: init_schema_def get_conn_def commit_def table_of_def Let_def split: option.splits)

lemma close_fact_cars: "close c = fact_cars c"
  by (simp add: close_def rollback_def)

lemma load_cars_converted:
  assumes "convert_rows F (readings clk (reads clk)) df = Inr ts"
  shows "load_cars F db clk df =
           (fst (upsert_cars F (init_schema (get_conn db)) ts),
            fact_cars (snd (upsert_cars F (init_schema (get_conn db)) ts)),
            clk\<lparr>reads := Suc (reads clk)\<rparr>)"
  using assms
  by (simp add: load_cars_def convert_row_for_db_def utcnow_isoformat_def Let_def close_fact_cars
      split: prod.splits)

lemma load_cars_Inr:
  assumes "convert_rows F (readings clk (reads clk)) df = Inr ts"
    and "upsert_all F (table_of db) ts = Inr tbl'"
  shows "load_cars F db clk df = (Inr (length ts), Some tbl', clk\<lparr>reads := Suc (reads clk)\<rparr>)"
proof -
  from upsert_cars_Inr [OF init_schema_get_conn assms(2)] obtain c' where
    "upsert_cars F (init_schema (get_conn db)) ts = (Inr (length ts), c')" "fact_cars c' = Some tbl'"
    by blast
  then show ?thesis by (simp add: load_cars_converted [OF assms(1)])
qed

lemma load_cars_Inl:
  assumes "convert_rows F (readings clk (reads clk)) df = Inr ts"
    and "upsert_all F (table_of db) ts = Inl e"
  shows "load_cars F db clk df = (Inl e, Some (table_of db), clk\<lparr>reads := Suc (reads clk)\<rparr>)"
proof -
  from upsert_cars_Inl [OF init_schema_get_conn assms(2)] obtain c' where
    "upsert_cars F (init_schema (get_conn db)) ts = (Inl e, c')" "fact_cars c' = Some (table_of db)"
    by blast
  then show ?thesis by (simp add: load_cars_converted [OF assms(1)])
qed

lemma restamp_nth:
  "k < length tbl \<Longrightarrow> (restamp now urls tbl ! k)\<lparr>db_load_ts := db_load_ts (tbl ! k)\<rparr> = tbl ! k"
  by (simp add: restamp_def)

lemma convert_row_for_db_eq:
  "convert_row_for_db F clk rs =
     (convert_rows F (readings clk (reads clk)) rs, clk\<lparr>reads := Suc (reads clk)\<rparr>)"
  by (simp add: convert_row_for_db_def utcnow_isoformat_def)

subsection \<open>Row conversion\<close>

text \<open>
  Claim C9. In every tuple that \<open>_convert_row_for_db\<close> produces, a field whose value in
  the row was \<open>None\<close>, \<open>pd.NA\<close> or a not-a-number float is \<open>None\<close>; one tuple is produced
  per row.
\<close>

theorem missing_values_become_None:
  assumes "convert_row_for_db F clk rs = (Inr ts, clk')"
  shows "length ts = length rs \<and>
         (\<forall>j < length rs.
            (is_missing F (rs ! j ! 0) \<longrightarrow> db_url (ts ! j) = None) \<and>
            (is_missing F (rs ! j ! 1) \<longrightarrow> db_regnr (ts ! j) = None) \<and>
            (is_missing F (rs ! j ! 2) \<longrightarrow> db_model_year (ts ! j) = None) \<and>
            (is_missing F (rs ! j ! 3) \<longrightarrow> db_price_sek (ts ! j) = None) \<and>
            (is_missing F (rs ! j ! 4) \<longrightarrow> db_odometer_km (ts ! j) = None) \<and>
            (is_missing F (rs ! j ! 5) \<longrightarrow> db_fuel (ts ! j) = None) \<and>
            (is_missing F (rs ! j ! 6) \<longrightarrow> db_body_type (ts ! j) = None) \<and>
            (is_missing F (rs ! j ! 7) \<longrightarrow> db_horsepower (ts ! j) = None) \<and>
            (is_missing F (rs ! j ! 8) \<longrightarrow> db_price_per_1000km (ts ! j) = None))"
proof -
  from assms have conv: "convert_rows F (readings clk (reads clk)) rs = Inr ts"
    by (simp add: convert_row_for_db_def utcnow_isoformat_def)
  note nth = convert_rows_nth [OF conv]
  show ?thesis
  proof (intro conjI allI impI)
    show "length ts = length rs" using nth by simp
  next
    fix j assume j: "j < length rs"
    with nth have one: "convert_one F (readings clk (reads clk)) (rs ! j) = Inr (ts ! j)" by simp
    note f = convert_one_fields [OF one]
    { assume "is_missing F (rs ! j ! 0)"
      from none_or_missing [OF this, of "py_str F"] f(2) show "db_url (ts ! j) = None" by simp }
    { assume "is_missing F (rs ! j ! 1)"
      from none_or_missing [OF this, of "py_str F"] f(3) show "db_regnr (ts ! j) = None" by simp }
    { assume "is_missing F (rs ! j ! 2)"
      from none_or_missing [OF this, of "py_int F"] f(4) show "db_model_year (ts ! j) = None" by simp }
    { assume "is_missing F (rs ! j ! 3)"
      from none_or_missing [OF this, of "py_int F"] f(5) show "db_price_sek (ts ! j) = None" by simp }
    { assume "is_missing F (rs ! j ! 4)"
      from none_or_missing [OF this, of "py_int F"] f(6) show "db_odometer_km (ts ! j) = None" by simp }
    { assume "is_missing F (rs ! j ! 5)"
      from none_or_missing [OF this, of "py_str F"] f(7) show "db_fuel (ts ! j) = None" by simp }
    { assume "is_missing F (rs ! j ! 6)"
      from none_or_missing [OF this, of "py_str F"] f(8) show "db_body_type (ts ! j) = None" by simp }
    { assume "is_missing F (rs ! j ! 7)"
      from none_or_missing [OF this, of "py_int F"] f(9) show "db_horsepower (ts ! j) = None" by simp }
    { assume "is_missing F (rs ! j ! 8)"
      from none_or_missing [OF this, of "py_float F"] f(10) show "db_price_per_1000km (ts ! j) = None" by simp }
  qed
qed

theorem missing_values_become_None_witness:
  "convert_row_for_db exact_ops example_clock [missing_tuple] =
     (Inr [null_row\<lparr>db_url := Some ''http://x/7'', db_odometer_km := Some 5000,
                    db_load_ts := ''2024-01-01T00:00:00+00:00''\<rparr>],
      example_clock\<lparr>reads := Suc (reads example_clock)\<rparr>) \<and>
   is_missing exact_ops ([missing_tuple] ! 0 ! 1) \<and>
   db_regnr ([null_row\<lparr>db_url := Some ''http://x/7'', db_odometer_km := Some 5000,
                      db_load_ts := ''2024-01-01T00:00:00+00:00''\<rparr>] ! 0) = None \<and>
   is_missing exact_ops ([missing_tuple] ! 0 ! 2) \<and>
   db_model_year ([null_row\<lparr>db_url := Some ''http://x/7'', db_odometer_km := Some 5000,
                      db_load_ts := ''2024-01-01T00:00:00+00:00''\<rparr>] ! 0) = None \<and>
   is_missing exact_ops ([missing_tuple] ! 0 ! 3) \<and>
   db_price_sek ([null_row\<lparr>db_url := Some ''http://x/7'', db_odometer_km := Some 5000,
                      db_load_ts := ''2024-01-01T00:00:00+00:00''\<rparr>] ! 0) = None"
proof -
  let ?ts = "[null_row\<lparr>db_url := Some ''http://x/7'', db_odometer_km := Some 5000,
                      db_load_ts := ''2024-01-01T00:00:00+00:00''\<rparr>]"
  have conv: "convert_rows exact_ops (readings example_clock (reads example_clock)) [missing_tuple] = Inr ?ts"
    by code_simp
  have a: "convert_row_for_db exact_ops example_clock [missing_tuple] =
     (Inr ?ts, example_clock\<lparr>reads := Suc (reads example_clock)\<rparr>)"
    by (simp only: convert_row_for_db_eq conv)
  have j: "0 < length [missing_tuple]" by simp
  note c = missing_values_become_None [OF a, THEN conjunct2, THEN spec, THEN mp, OF j]
  have m1: "is_missing exact_ops ([missing_tuple] ! 0 ! 1)" by code_simp
  have m2: "is_missing exact_ops ([missing_tuple] ! 0 ! 2)" by code_simp
  have m3: "is_missing exact_ops ([missing_tuple] ! 0 ! 3)" by code_simp
  note r1 = c [THEN conjunct2, THEN conjunct1, THEN mp, OF m1]
  note r2 = c [THEN conjunct2, THEN conjunct2, THEN conjunct1, THEN mp, OF m2]
  note r3 = c [THEN conjunct2, THEN conjunct2, THEN conjunct2, THEN conjunct1, THEN mp, OF m3]
  show ?thesis
    by (rule conjI [OF a conjI [OF m1 conjI [OF r1 conjI [OF m2 conjI [OF r2 conjI [OF m3 r3]]]]]])
qed

text \<open>
  Claim C10. The tuples of one conversion all carry the same \<open>load_ts\<close>, the reading the
  clock gave before the first row; the conversion, and with it a whole call of
  \<open>load_cars\<close>, reads the clock once.
\<close>

theorem one_timestamp_per_load:
  assumes "convert_row_for_db F clk rs = (Inr ts, clk')"
  shows "(\<forall>t \<in> set ts. db_load_ts t = readings clk (reads clk)) \<and>
         reads clk' = Suc (reads clk) \<and> readings clk' = readings clk \<and>
         snd (snd (load_cars F db clk rs)) = clk'"
proof -
  from assms have conv: "convert_rows F (readings clk (reads clk)) rs = Inr ts"
    and clk': "clk' = clk\<lparr>reads := Suc (reads clk)\<rparr>"
    by (simp_all add: convert_row_for_db_eq)
  have "snd (snd (load_cars F db clk rs)) = clk'"
    by (simp add: load_cars_converted [OF conv] clk')
  with convert_rows_load_ts [OF conv] clk' show ?thesis by simp
qed

theorem one_timestamp_per_load_witness:
  "convert_row_for_db exact_ops example_clock (itertuples example_out) =
     (Inr example_stored, example_clock\<lparr>reads := Suc (reads example_clock)\<rparr>) \<and>
   list_all (\<lambda>t. db_load_ts t = readings example_clock (reads example_clock)) example_stored \<and>
   reads (example_clock\<lparr>reads := Suc (reads example_clock)\<rparr>) = Suc (reads example_clock) \<and>
   readings (example_clock\<lparr>reads := Suc (reads example_clock)\<rparr>) = readings example_clock \<and>
   snd (snd (load_cars exact_ops None example_clock (itertuples example_out))) =
     example_clock\<lparr>reads := Suc (reads example_clock)\<rparr>"
proof -
  have conv: "convert_rows exact_ops (readings example_clock (reads example_clock)) (itertuples example_out) =
      Inr example_stored"
    by code_simp
  have a: "convert_row_for_db exact_ops example_clock (itertuples example_out) =
     (Inr example_stored, example_clock\<lparr>reads := Suc (reads example_clock)\<rparr>)"
    by (simp only: convert_row_for_db_eq conv)
  note c = one_timestamp_per_load [OF a, of None]
  have c1: "list_all (\<lambda>t. db_load_ts t = readings example_clock (reads example_clock)) example_stored"
    by (rule list_all_iff [THEN iffD2]) (rule c [THEN conjunct1])
  show ?thesis
    by (rule conjI [OF a conjI [OF c1 c [THEN conjunct2]]])
qed

subsection \<open>Upsert\<close>

text \<open>
  Claim C4. When the url of the incoming row is stored already and the upsert
  succeeds, every stored row of that url holds the incoming value in every field other
  than the key (a not-a-number float as NULL), so a null field replaces a stored value;
  the other rows and the row count stay as they were.
\<close>

theorem upsert_overwrites_every_field:
  assumes "txn c = None" and "fact_cars c = Some tbl"
    and "db_url t = Some u" and "list_ex (\<lambda>s. db_url s = Some u) tbl"
    and "upsert_cars F c [t] = (Inr n, c')"
  shows "\<exists>tbl'. fact_cars c' = Some tbl' \<and> length tbl' = length tbl \<and>
           (\<forall>k < length tbl.
              if db_url (tbl ! k) = Some u
              then db_url (tbl' ! k) = Some u \<and>
                   db_regnr (tbl' ! k) = db_regnr t \<and>
                   db_model_year (tbl' ! k) = db_model_year t \<and>
                   db_price_sek (tbl' ! k) = db_price_sek t \<and>
                   db_odometer_km (tbl' ! k) = db_odometer_km t \<and>
                   db_fuel (tbl' ! k) = db_fuel t \<and>
                   db_body_type (tbl' ! k) = db_body_type t \<and>
                   db_horsepower (tbl' ! k) = db_horsepower t \<and>
                   db_price_per_1000km (tbl' ! k) = real_param F (db_price_per_1000km t) \<and>
                   db_load_ts (tbl' ! k) = db_load_ts t
              else tbl' ! k = tbl ! k)"
proof -
  from upsert_cars_single [OF assms(1,2,5)] obtain tbl' where
    up: "UPSERT_SQL F tbl t = Inr tbl'" and fc: "fact_cars c' = Some tbl'" by blast
  from UPSERT_SQL_update [OF up assms(3,4)] obtain t' where t': "bind_params F t = Inr t'"
    and tbl': "tbl' = map (\<lambda>s. if db_url s = Some u then do_update t' s else s) tbl" by blast
  note f = bind_params_fields [OF t']
  have "\<forall>k < length tbl.
              if db_url (tbl ! k) = Some u
              then db_url (tbl' ! k) = Some u \<and>
                   db_regnr (tbl' ! k) = db_regnr t \<and>
                   db_model_year (tbl' ! k) = db_model_year t \<and>
                   db_price_sek (tbl' ! k) = db_price_sek t \<and>
                   db_odometer_km (tbl' ! k) = db_odometer_km t \<and>
                   db_fuel (tbl' ! k) = db_fuel t \<and>
                   db_body_type (tbl' ! k) = db_body_type t \<and>
                   db_horsepower (tbl' ! k) = db_horsepower t \<and>
                   db_price_per_1000km (tbl' ! k) = real_param F (db_price_per_1000km t) \<and>
                   db_load_ts (tbl' ! k) = db_load_ts t
              else tbl' ! k = tbl ! k"
    by (simp add: tbl' do_update_def f)
  moreover have "length tbl' = length tbl" by (simp add: tbl')
  ultimately show ?thesis using fc by blast
qed

theorem upsert_overwrites_every_field_witness:
  "txn example_conn = None \<and> fact_cars example_conn = Some example_stored \<and>
   db_url null_row = Some ''http://x/1'' \<and>
   list_ex (\<lambda>s. db_url s = Some ''http://x/1'') example_stored \<and>
   upsert_cars exact_ops example_conn [null_row] =
     (Inr 1, snd (upsert_cars exact_ops example_conn [null_row])) \<and>
   fact_cars (snd (upsert_cars exact_ops example_conn [null_row])) =
     Some [example_stored ! 0, null_row, example_stored ! 2] \<and>
   (\<exists>tbl'. fact_cars (snd (upsert_cars exact_ops example_conn [null_row])) = Some tbl' \<and>
      length tbl' = length example_stored \<and>
      (\<forall>k < length example_stored.
         if db_url (example_stored ! k) = Some ''http://x/1''
         then db_url (tbl' ! k) = Some ''http://x/1'' \<and>
              db_regnr (tbl' ! k) = db_regnr null_row \<and>
              db_model_year (tbl' ! k) = db_model_year null_row \<and>
              db_price_sek (tbl' ! k) = db_price_sek null_row \<and>
              db_odometer_km (tbl' ! k) = db_odometer_km null_row \<and>
              db_fuel (tbl' ! k) = db_fuel null_row \<and>
              db_body_type (tbl' ! k) = db_body_type null_row \<and>
              db_horsepower (tbl' ! k) = db_horsepower null_row \<and>
              db_price_per_1000km (tbl' ! k) = real_param exact_ops (db_price_per_1000km null_row) \<and>
              db_load_ts (tbl' ! k) = db_load_ts null_row
         else tbl' ! k = example_stored ! k))"
proof -
  have a: "txn example_conn = None" by code_simp
  have b: "fact_cars example_conn = Some example_stored" by code_simp
  have c: "db_url null_row = Some ''http://x/1''" by code_simp
  have d: "list_ex (\<lambda>s. db_url s = Some ''http://x/1'') example_stored" by code_simp
  have "fst (upsert_cars exact_ops example_conn [null_row]) = Inr 1" by code_simp
  then have e: "upsert_cars exact_ops example_conn [null_row] =
     (Inr 1, snd (upsert_cars exact_ops example_conn [null_row]))"
    by (metis prod.collapse)
  have f: "fact_cars (snd (upsert_cars exact_ops example_conn [null_row])) =
     Some [example_stored ! 0, null_row, example_stored ! 2]"
    by code_simp
  show ?thesis
    by (rule conjI [OF a conjI [OF b conjI [OF c conjI [OF d conjI [OF e conjI [OF f
          upsert_overwrites_every_field [OF a b c d e]]]]]]])
qed

text \<open>
  Claim C5. On a connection with no open transaction, \<open>upsert_cars\<close> either commits
  the table in which every row of the batch has been applied and returns, or raises the
  error of the first failing row and leaves the committed table as it was.
\<close>

theorem upsert_cars_all_or_nothing:
  assumes "txn c = None" and "fact_cars c = Some tbl"
  shows "(\<forall>tbl'. upsert_all F tbl ts = Inr tbl' \<longrightarrow>
            (\<exists>c'. upsert_cars F c ts = (Inr (length ts), c') \<and> fact_cars c' = Some tbl' \<and> txn c' = None)) \<and>
         (\<forall>e. upsert_all F tbl ts = Inl e \<longrightarrow>
            (\<exists>c'. upsert_cars F c ts = (Inl e, c') \<and> fact_cars c' = Some tbl \<and> txn c' = None))"
  using upsert_cars_Inr [OF assms] upsert_cars_Inl [OF assms] by blast

theorem upsert_cars_all_or_nothing_witness:
  "txn example_conn = None \<and> fact_cars example_conn = Some example_stored \<and>
   upsert_all exact_ops example_stored bad_batch = Inl IntegrityError \<and>
   (\<exists>c'. upsert_cars exact_ops example_conn bad_batch = (Inl IntegrityError, c') \<and>
      fact_cars c' = Some example_stored \<and> txn c' = None)"
proof -
  have a: "txn example_conn = None" by code_simp
  have b: "fact_cars example_conn = Some example_stored" by code_simp
  have c: "upsert_all exact_ops example_stored bad_batch = Inl IntegrityError" by code_simp
  note r = upsert_cars_all_or_nothing [OF a b, of exact_ops bad_batch, THEN conjunct2, THEN spec, THEN mp, OF c]
  show ?thesis
    by (rule conjI [OF a conjI [OF b conjI [OF c r]]])
qed

text \<open>
  Claim C8. Whenever \<open>upsert_cars\<close> returns, it returns the number of rows it was
  given, and it does return when every row of the batch can be applied. On no rows it
  returns 0 and leaves the connection untouched, no statement executed; \<open>load_cars\<close> on
  an empty table returns 0 and stores no row.
\<close>

theorem upsert_cars_returns_submitted_count:
  "(\<forall>n c'. upsert_cars F c ts = (Inr n, c') \<longrightarrow> n = length ts) \<and>
   upsert_cars F c [] = (Inr 0, c) \<and>
   load_cars F db clk [] =
     (Inr 0, (case db of None \<Rightarrow> Some [] | Some t \<Rightarrow> Some t), clk\<lparr>reads := Suc (reads clk)\<rparr>) \<and>
   (\<forall>tbl tbl'. txn c = None \<and> fact_cars c = Some tbl \<and> upsert_all F tbl ts = Inr tbl' \<longrightarrow>
      fst (upsert_cars F c ts) = Inr (length ts))"
proof -
  have c1: "\<forall>n c'. upsert_cars F c ts = (Inr n, c') \<longrightarrow> n = length ts"
    using upsert_cars_count [of F c ts] by blast
  have c2: "upsert_cars F c [] = (Inr 0, c)"
    by (simp add: upsert_cars_def)
  have c3: "load_cars F db clk [] =
     (Inr 0, (case db of None \<Rightarrow> Some [] | Some t \<Rightarrow> Some t), clk\<lparr>reads := Suc (reads clk)\<rparr>)"
    by (rule load_cars_empty)
  have c4: "\<forall>tbl tbl'. txn c = None \<and> fact_cars c = Some tbl \<and> upsert_all F tbl ts = Inr tbl' \<longrightarrow>
      fst (upsert_cars F c ts) = Inr (length ts)"
  proof (intro allI impI)
    fix tbl tbl'
    assume h: "txn c = None \<and> fact_cars c = Some tbl \<and> upsert_all F tbl ts = Inr tbl'"
    then have "\<exists>c'. upsert_cars F c ts = (Inr (length ts), c') \<and> fact_cars c' = Some tbl' \<and> txn c' = None"
      using upsert_cars_Inr [of c tbl F ts tbl'] by blast
    then show "fst (upsert_cars F c ts) = Inr (length ts)" by auto
  qed
  from c1 c2 c3 c4 show ?thesis by (intro conjI)
qed

theorem upsert_cars_returns_submitted_count_witness:
  "upsert_cars exact_ops example_conn example_stored =
     (Inr 3, snd (upsert_cars exact_ops example_conn example_stored)) \<and>
   fact_cars (snd (upsert_cars exact_ops example_conn example_stored)) = Some example_stored \<and>
   (3::nat) = length example_stored"
proof -
  have "fst (upsert_cars exact_ops example_conn example_stored) = Inr 3" by code_simp
  then have a: "upsert_cars exact_ops example_conn example_stored =
     (Inr 3, snd (upsert_cars exact_ops example_conn example_stored))"
    by (metis prod.collapse)
  have b: "fact_cars (snd (upsert_cars exact_ops example_conn example_stored)) = Some example_stored"
    by code_simp
  note r = upsert_cars_returns_submitted_count [of exact_ops example_conn example_stored,
      THEN conjunct1, THEN spec, THEN spec, THEN mp, OF a]
  show ?thesis
    by (rule conjI [OF a conjI [OF b r]])
qed

subsection \<open>Loading twice\<close>

lemma example_first_load:
  "load_cars exact_ops None example_clock (itertuples example_out) =
     (Inr 3, Some example_stored, example_clock\<lparr>reads := Suc (reads example_clock)\<rparr>)"
proof -
  have conv: "convert_rows exact_ops (readings example_clock (reads example_clock)) (itertuples example_out) =
      Inr example_stored"
    by code_simp
  have up: "upsert_all exact_ops (table_of None) example_stored = Inr example_stored"
    by code_simp
  have "length example_stored = 3" by code_simp
  with load_cars_Inr [OF conv up] show ?thesis by simp
qed

text \<open>
  Claim C3, as stated, fails: loading the example table a second time changes the
  \<open>load_ts\<close> of every stored row, because the second load reads the clock again.
\<close>

theorem reload_changes_load_ts:
  "fst (load_cars exact_ops None example_clock (itertuples example_out)) = Inr 3 \<and>
   fst (snd (load_cars exact_ops None example_clock (itertuples example_out))) = Some example_stored \<and>
   fst (load_cars exact_ops (Some example_stored) (example_clock\<lparr>reads := 1\<rparr>) (itertuples example_out)) = Inr 3 \<and>
   fst (snd (load_cars exact_ops (Some example_stored) (example_clock\<lparr>reads := 1\<rparr>) (itertuples example_out))) =
     Some example_reloaded \<and>
   map db_load_ts example_stored =
     [''2024-01-01T00:00:00+00:00'', ''2024-01-01T00:00:00+00:00'', ''2024-01-01T00:00:00+00:00''] \<and>
   map db_load_ts example_reloaded =
     [''2024-01-02T00:00:00+00:00'', ''2024-01-02T00:00:00+00:00'', ''2024-01-02T00:00:00+00:00''] \<and>
   example_reloaded \<noteq> example_stored"
  by code_simp

text \<open>
  Claim C3, amended. After a load that succeeded, of a batch whose urls are present and
  pairwise different, loading the same batch again succeeds with the same count, keeps
  the number of rows and every field of every row except \<open>load_ts\<close>, and sets the
  \<open>load_ts\<close> of the rows of the batch to the second reading of the clock.
\<close>

theorem reload_keeps_rows_and_restamps:
  assumes "load_cars F db clk df = (Inr n, db1, clk1)"
    and "convert_rows F (readings clk (reads clk)) df = Inr ts"
    and "distinct (map db_url ts)" and "None \<notin> set (map db_url ts)"
  shows "\<exists>tbl1 tbl2.
           db1 = Some tbl1 \<and>
           load_cars F db1 clk1 df = (Inr n, Some tbl2, clk1\<lparr>reads := Suc (reads clk1)\<rparr>) \<and>
           tbl2 = restamp (readings clk (Suc (reads clk))) (map db_url ts) tbl1 \<and>
           length tbl2 = length tbl1 \<and>
           (\<forall>k < length tbl1. (tbl2 ! k)\<lparr>db_load_ts := db_load_ts (tbl1 ! k)\<rparr> = tbl1 ! k)"
proof (cases "upsert_all F (table_of db) ts")
  case (Inl e)
  from load_cars_Inl [OF assms(2) Inl] assms(1) show ?thesis by simp
next
  case (Inr tbl1)
  let ?now2 = "readings clk (Suc (reads clk))"
  let ?ts2 = "map (\<lambda>t. t\<lparr>db_load_ts := ?now2\<rparr>) ts"
  let ?tbl2 = "restamp ?now2 (map db_url ts) tbl1"
  from load_cars_Inr [OF assms(2) Inr] assms(1)
  have n: "n = length ts" and db1: "db1 = Some tbl1" and clk1: "clk1 = clk\<lparr>reads := Suc (reads clk)\<rparr>"
    by simp_all
  have settled: "\<forall>t \<in> set ts. settled F tbl1 t"
    by (rule upsert_all_settles [OF Inr assms(3,4)])
  have conv2: "convert_rows F (readings clk1 (reads clk1)) df = Inr ?ts2"
    unfolding clk1 using convert_rows_now [OF assms(2), of ?now2] by simp
  have up2: "upsert_all F (table_of db1) ?ts2 = Inr ?tbl2"
    unfolding db1 using upsert_all_restamp [OF settled assms(3), of ?now2] by (simp add: table_of_def)
  from load_cars_Inr [OF conv2 up2]
  have second: "load_cars F db1 clk1 df = (Inr n, Some ?tbl2, clk1\<lparr>reads := Suc (reads clk1)\<rparr>)"
    by (simp add: n)
  have len: "length ?tbl2 = length tbl1" by (simp add: restamp_def)
  have same: "\<forall>k < length tbl1. (?tbl2 ! k)\<lparr>db_load_ts := db_load_ts (tbl1 ! k)\<rparr> = tbl1 ! k"
    by (simp add: restamp_nth)
  from db1 second len same show ?thesis by blast
qed

theorem reload_keeps_rows_and_restamps_witness:
  "load_cars exact_ops None example_clock (itertuples example_out) =
     (Inr 3, Some example_stored, example_clock\<lparr>reads := Suc (reads example_clock)\<rparr>) \<and>
   convert_rows exact_ops (readings example_clock (reads example_clock)) (itertuples example_out) =
     Inr example_stored \<and>
   distinct (map db_url example_stored) \<and>
   None \<notin> set (map db_url example_stored) \<and>
   (\<exists>tbl1 tbl2.
      Some example_stored = Some tbl1 \<and>
      load_cars exact_ops (Some example_stored) (example_clock\<lparr>reads := Suc (reads example_clock)\<rparr>)
          (itertuples example_out) =
        (Inr 3, Some tbl2,
         example_clock\<lparr>reads := Suc (reads example_clock)\<rparr>
           \<lparr>reads := Suc (reads (example_clock\<lparr>reads := Suc (reads example_clock)\<rparr>))\<rparr>) \<and>
      tbl2 = restamp (readings example_clock (Suc (reads example_clock))) (map db_url example_stored) tbl1 \<and>
      length tbl2 = length tbl1 \<and>
      (\<forall>k < length tbl1. (tbl2 ! k)\<lparr>db_load_ts := db_load_ts (tbl1 ! k)\<rparr> = tbl1 ! k))"
proof -
  note a = example_first_load
  have b: "convert_rows exact_ops (readings example_clock (reads example_clock)) (itertuples example_out) =
      Inr example_stored"
    by code_simp
  have c: "distinct (map db_url example_stored)" by code_simp
  have d: "None \<notin> set (map db_url example_stored)" by code_simp
  show ?thesis
    by (rule conjI [OF a conjI [OF b conjI [OF c conjI [OF d
          reload_keeps_rows_and_restamps [OF a b c d]]]]])
qed

end
